theory Spec2Isabelle
  imports Complex_Main "HOL-Library.Char_ord" "HOL-Library.List_Lexorder" "HOL-Library.Multiset"
begin

section \<open>Python values used by the pipeline\<close>

text \<open>
  A Python \<open>str\<close> is modelled as a \<open>string\<close> holding its UTF-8 bytes; comparing two
  such byte lists lexicographically orders them as Python orders the strings by code
  point. \<open>str.lower()\<close> and \<open>str.strip()\<close> are modelled on the ASCII range: bytes
  above 127 (Korean labels, for instance) are neither cased nor whitespace here.
  A Python \<open>int\<close> is an \<open>int\<close>.
\<close>

definition isspace :: "char \<Rightarrow> bool" where
  "isspace c = (let n = (of_char c :: nat) in (9 \<le> n \<and> n \<le> 13) \<or> (28 \<le> n \<and> n \<le> 32))"

definition strip :: "string \<Rightarrow> string" where
  "strip s = rev (dropWhile isspace (rev (dropWhile isspace s)))"

definition lower_char :: "char \<Rightarrow> char" where
  "lower_char c =
     (let n = (of_char c :: nat) in if 65 \<le> n \<and> n \<le> 90 then char_of (n + 32) else c)"

definition lower :: "string \<Rightarrow> string" where
  "lower s = map lower_char s"

text \<open>
  Floats. A finite \<open>float\<close> is the real number it denotes, and \<open>fl\<close> rounds a real
  to the nearest double (53-bit significand, ties to the even significand), as every
  float operation of Python does with its exact result. \<open>to_significand\<close> scales a
  positive real by powers of two until it lies in \<open>[2^52, 2^53)\<close> and returns it
  with the exponent. The exponent is unbounded: overflow, underflow, infinities and
  NaN are outside the model.
\<close>

definition round_half_even :: "real \<Rightarrow> int" where
  "round_half_even y =
     (let n = \<lfloor>y\<rfloor>; d = y - of_int n
      in if d < 1 / 2 then n else if 1 / 2 < d then n + 1 else if even n then n else n + 1)"

definition sig_measure :: "real \<Rightarrow> real \<Rightarrow> nat" where
  "sig_measure b x =
     (if 2 * b \<le> x then nat \<lfloor>x\<rfloor> else 0) + (if 0 < x \<and> x < b then nat \<lceil>b / x\<rceil> else 0)"

function to_significand :: "real \<Rightarrow> int \<Rightarrow> real \<times> int" where
  "to_significand x e =
     (if x \<le> 0 then (x, e)
      else if 2 ^ 53 \<le> x then to_significand (x / 2) (e + 1)
      else if x < 2 ^ 52 then to_significand (2 * x) (e - 1)
      else (x, e))"
  by pat_completeness auto
termination
proof (relation "measure (\<lambda>(x, e). sig_measure (2 ^ 52) x)")
  show "wf (measure (\<lambda>(x, e). sig_measure (2 ^ 52) x))"
    by simp
next
  fix x :: real and e :: int
  assume "\<not> x \<le> 0" and "2 ^ 53 \<le> x"
  then have big: "2 * 2 ^ 52 \<le> x"
    by simp
  define b :: real where "b = 2 ^ 52"
  have b: "1 \<le> b" "2 * b \<le> x"
    using big by (simp_all add: b_def)
  have x2: "2 \<le> x"
    using b by linarith
  have "x / 2 \<le> x - 1"
    using x2 by simp
  then have "\<lfloor>x / 2\<rfloor> \<le> \<lfloor>x - 1\<rfloor>"
    by (rule floor_mono)
  moreover have "0 < \<lfloor>x\<rfloor>"
    using x2 by linarith
  ultimately have "nat \<lfloor>x / 2\<rfloor> < nat \<lfloor>x\<rfloor>"
    by simp
  moreover have "\<not> x / 2 < b" "\<not> x < b"
    using b by simp_all
  ultimately have "sig_measure b (x / 2) < sig_measure b x"
    using b(2) by (simp add: sig_measure_def)
  then show "((x / 2, e + 1), (x, e)) \<in> measure (\<lambda>(x, e). sig_measure (2 ^ 52) x)"
    by (simp add: b_def)
next
  fix x :: real and e :: int
  assume "\<not> x \<le> 0" and "\<not> 2 ^ 53 \<le> x" and small: "x < 2 ^ 52"
  then have pos: "0 < x"
    by simp
  define b :: real where "b = 2 ^ 52"
  have b: "0 < b" "x < b"
    using small by (simp_all add: b_def)
  have y: "1 < b / x"
    using pos b by simp
  have c: "1 < \<lceil>b / x\<rceil>"
    using y by linarith
  have "\<lceil>b / x / 2\<rceil> < \<lceil>b / x\<rceil>"
  proof (cases "2 < b / x")
    case True
    then have "b / x / 2 \<le> b / x - 1"
      by simp
    then have "\<lceil>b / x / 2\<rceil> \<le> \<lceil>b / x - 1\<rceil>"
      by (rule ceiling_mono)
    then show ?thesis
      by simp
  next
    case False
    then have "b / x / 2 \<le> 1"
      by simp
    then have "\<lceil>b / x / 2\<rceil> \<le> 1"
      by (simp add: ceiling_le_one)
    with c show ?thesis
      by linarith
  qed
  then have less: "nat \<lceil>b / x / 2\<rceil> < nat \<lceil>b / x\<rceil>"
    using c by linarith
  have eq: "b / (2 * x) = b / x / 2"
    by simp
  have "\<not> 2 * b \<le> 2 * x" "\<not> 2 * b \<le> x"
    using b by linarith+
  moreover have "0 < nat \<lceil>b / x\<rceil>"
    using y by linarith
  ultimately have "sig_measure b (2 * x) < sig_measure b x"
    using less pos b by (simp add: sig_measure_def eq)
  then show "((2 * x, e - 1), (x, e)) \<in> measure (\<lambda>(x, e). sig_measure (2 ^ 52) x)"
    by (simp add: b_def)
qed

definition pow2 :: "int \<Rightarrow> real" where
  "pow2 e = (if 0 \<le> e then 2 ^ nat e else 1 / 2 ^ nat (- e))"

definition fl :: "real \<Rightarrow> real" where
  "fl x =
     sgn x * (case to_significand \<bar>x\<bar> 0 of (m, e) \<Rightarrow> of_int (round_half_even m) * pow2 e)"

text \<open>The exceptions the scripts raise, catch or let escape.\<close>

datatype exn =
    FileNotFoundError
  | UnicodeDecodeError
  | UnicodeError
  | KeyError
  | ValueError
  | TypeError
  | AttributeError
  | CsvError

text \<open>
  A \<open>dict\<close> is an association list in insertion order, read with \<open>map_of\<close>;
  \<open>d[k] = v\<close> overwrites in place or appends.
\<close>

fun dict_set :: "'k \<Rightarrow> 'v \<Rightarrow> ('k \<times> 'v) list \<Rightarrow> ('k \<times> 'v) list" where
  "dict_set k v [] = [(k, v)]"
| "dict_set k v ((k', v') # d) =
     (if k' = k then (k, v) # d else (k', v') # dict_set k v d)"

text \<open>
  The four-key dictionary both scripts call a prediction. The classification script
  stores whatever the model's JSON held under \<open>pred_label\<close> and \<open>pred_confidence\<close>;
  the evaluation script stores a string and a float. The record is polymorphic in
  these two fields for that reason.
\<close>

record ('l, 'c) prediction =
  filename :: string
  true_label :: string
  pred_label :: 'l
  pred_confidence :: 'c

section \<open>Tabular files read through \<open>csv.DictReader\<close>\<close>

text \<open>
  \<open>encodings_to_try\<close> of both loaders. What a file yields depends on the encoding
  it is opened with, so a file that exists is a function from the encoding to the
  events its \<open>DictReader\<close> produces: a row (the dictionary from column name to
  cell), or an exception raised by the decoder or the reader while the next row is
  fetched. A path that does not exist is \<open>None\<close>. The type of the rows is a
  parameter: the rows of the predictions table have a string in every cell (lines
  shorter than the header are outside the model of that table), the rows of the
  label table may lack cells.
\<close>

datatype encoding = Utf8Sig | Utf8 | Cp949 | EucKr

definition encodings_to_try :: "encoding list" where
  "encodings_to_try = [Utf8Sig, Utf8, Cp949, EucKr]"

type_synonym row = "(string \<times> string) list"

datatype 'r read_event = Row 'r | Raise exn

type_synonym 'r csv_file = "encoding \<Rightarrow> 'r read_event list"

text \<open>\<open>except (UnicodeDecodeError, UnicodeError, KeyError)\<close> of both loaders.\<close>

definition caught :: "exn \<Rightarrow> bool" where
  "caught e = (e = UnicodeDecodeError \<or> e = UnicodeError \<or> e = KeyError)"

section \<open>Evaluation Engine (\<open>src/evaluate_accuracy.py\<close>)\<close>

type_synonym eval_prediction = "(string, real) prediction"

text \<open>
  The dictionary literal appended for a retained row. Its four lookups raise
  \<open>KeyError\<close> on a missing column; \<open>float\<close> raises \<open>ValueError\<close> on text that
  is no number. Python's \<open>float\<close> is a parameter \<open>py_float\<close> of the loader.
\<close>

definition make_prediction :: "(string \<Rightarrow> real option) \<Rightarrow> row \<Rightarrow> exn + eval_prediction" where
  "make_prediction py_float r =
     (case map_of r ''filename'' of None \<Rightarrow> Inl KeyError | Some name_cell \<Rightarrow>
      case map_of r ''true_label'' of None \<Rightarrow> Inl KeyError | Some true_cell \<Rightarrow>
      case map_of r ''pred_label'' of None \<Rightarrow> Inl KeyError | Some pred_cell \<Rightarrow>
      case map_of r ''pred_confidence'' of None \<Rightarrow> Inl KeyError | Some conf_cell \<Rightarrow>
      case py_float conf_cell of None \<Rightarrow> Inl ValueError | Some c \<Rightarrow>
        Inr \<lparr>filename = name_cell, true_label = true_cell, pred_label = pred_cell,
             pred_confidence = c\<rparr>)"

text \<open>The \<open>for row in csv_reader\<close> loop of \<open>load_predictions_from_csv\<close>.\<close>

fun read_prediction_rows ::
  "(string \<Rightarrow> real option) \<Rightarrow> row read_event list \<Rightarrow> eval_prediction list
     \<Rightarrow> exn + eval_prediction list"
where
  "read_prediction_rows py_float [] predictions = Inr predictions"
| "read_prediction_rows py_float (Raise e # rest) predictions = Inl e"
| "read_prediction_rows py_float (Row r # rest) predictions =
     (case map_of r ''pred_label'' of
        None \<Rightarrow> Inl KeyError
      | Some pred_cell \<Rightarrow>
          if pred_cell = ''ERROR'' then read_prediction_rows py_float rest predictions
          else (case make_prediction py_float r of
                  Inl e \<Rightarrow> Inl e
                | Inr p \<Rightarrow> read_prediction_rows py_float rest (predictions @ [p])))"

text \<open>
  The \<open>for encoding in encodings_to_try\<close> loop: the first encoding whose rows are
  read without an exception ends the loop; a caught exception empties the list and
  moves on; any other exception leaves the function.
\<close>

fun try_prediction_encodings ::
  "(string \<Rightarrow> real option) \<Rightarrow> row csv_file \<Rightarrow> encoding list \<Rightarrow> eval_prediction list
     \<Rightarrow> exn + eval_prediction list"
where
  "try_prediction_encodings py_float f [] predictions = Inr predictions"
| "try_prediction_encodings py_float f (enc # encs) predictions =
     (case read_prediction_rows py_float (f enc) predictions of
        Inr ps \<Rightarrow> Inr ps
      | Inl e \<Rightarrow> if caught e then try_prediction_encodings py_float f encs [] else Inl e)"

definition load_predictions_from_csv ::
  "(string \<Rightarrow> real option) \<Rightarrow> row csv_file option \<Rightarrow> exn + eval_prediction list"
where
  "load_predictions_from_csv py_float csv_path =
     (case csv_path of
        None \<Rightarrow> Inl FileNotFoundError
      | Some f \<Rightarrow>
          (case try_prediction_encodings py_float f encodings_to_try [] of
             Inl e \<Rightarrow> Inl e
           | Inr predictions \<Rightarrow> if predictions = [] then Inl ValueError else Inr predictions))"

record counts =
  total :: int
  correct :: int

record accuracy_info = counts +
  accuracy :: real

record crop_data = counts +
  confidence_sum :: real

record crop_stats = accuracy_info +
  avg_confidence :: real

text \<open>
  The counting loop of \<open>calculate_overall_accuracy\<close>. The accuracy is
  \<open>(correct_count / total_count) * 100\<close>: the true division of two integers
  gives the double nearest to the quotient, and the product with \<open>100\<close> is
  rounded again.
\<close>

fun count_correct :: "eval_prediction list \<Rightarrow> int \<Rightarrow> int" where
  "count_correct [] correct_count = correct_count"
| "count_correct (p # ps) correct_count =
     count_correct ps
       (if lower (true_label p) = lower (pred_label p) then correct_count + 1
        else correct_count)"

definition calculate_overall_accuracy :: "eval_prediction list \<Rightarrow> accuracy_info" where
  "calculate_overall_accuracy predictions =
     (if predictions = [] then \<lparr>total = 0, correct = 0, accuracy = 0\<rparr>
      else
        let total_count = int (length predictions);
            correct_count = count_correct predictions 0
        in \<lparr>total = total_count, correct = correct_count,
            accuracy = fl (fl (real_of_int correct_count / real_of_int total_count) * 100)\<rparr>)"

text \<open>
  \<open>crop_data\<close> is a \<open>defaultdict\<close>: reading a missing key inserts the default
  entry at the end; the entry is then updated in place.
\<close>

definition default_crop_data :: crop_data where
  "default_crop_data = \<lparr>total = 0, correct = 0, confidence_sum = 0\<rparr>"

fun defaultdict_modify ::
  "string \<Rightarrow> (crop_data \<Rightarrow> crop_data) \<Rightarrow> (string \<times> crop_data) list \<Rightarrow> (string \<times> crop_data) list"
where
  "defaultdict_modify k g [] = [(k, g default_crop_data)]"
| "defaultdict_modify k g ((k', v) # d) =
     (if k' = k then (k', g v) # d else (k', v) # defaultdict_modify k g d)"

definition add_prediction :: "eval_prediction \<Rightarrow> crop_data \<Rightarrow> crop_data" where
  "add_prediction p d =
     \<lparr>total = total d + 1,
      correct = (if lower (true_label p) = lower (pred_label p) then correct d + 1
                 else correct d),
      confidence_sum = fl (confidence_sum d + pred_confidence p)\<rparr>"

fun group_by_crop ::
  "eval_prediction list \<Rightarrow> (string \<times> crop_data) list \<Rightarrow> (string \<times> crop_data) list"
where
  "group_by_crop [] crops = crops"
| "group_by_crop (p # ps) crops =
     group_by_crop ps (defaultdict_modify (true_label p) (add_prediction p) crops)"

text \<open>
  The statistics of one entry. Every entry of \<open>crop_data\<close> has been counted at
  least once, so neither division is by zero. The average divides a float by an
  integer, which is converted to a float first.
\<close>

definition crop_statistics_of :: "crop_data \<Rightarrow> crop_stats" where
  "crop_statistics_of d =
     \<lparr>total = total d, correct = correct d,
      accuracy = fl (fl (real_of_int (correct d) / real_of_int (total d)) * 100),
      avg_confidence = fl (confidence_sum d / fl (real_of_int (total d)))\<rparr>"

definition calculate_per_crop_statistics :: "eval_prediction list \<Rightarrow> (string \<times> crop_stats) list" where
  "calculate_per_crop_statistics predictions =
     map (\<lambda>(crop_name, d). (crop_name, crop_statistics_of d)) (group_by_crop predictions [])"

text \<open>The loop of \<open>find_misclassified_images\<close>, appending to \<open>misclassified\<close>.\<close>

fun collect_misclassified :: "eval_prediction list \<Rightarrow> eval_prediction list \<Rightarrow> eval_prediction list" where
  "collect_misclassified [] misclassified = misclassified"
| "collect_misclassified (p # ps) misclassified =
     collect_misclassified ps
       (if lower (true_label p) \<noteq> lower (pred_label p) then misclassified @ [p]
        else misclassified)"

definition find_misclassified_images :: "eval_prediction list \<Rightarrow> eval_prediction list" where
  "find_misclassified_images predictions = collect_misclassified predictions []"

text \<open>
  \<open>main\<close> of the evaluation script. Only \<open>FileNotFoundError\<close> is handled around
  the loader; every other exception leaves \<open>main\<close>.
\<close>

datatype eval_outcome =
    PredictionsFileMissing
  | NothingToAnalyze
  | Evaluated accuracy_info "(string \<times> crop_stats) list" "eval_prediction list"
  | Uncaught exn

definition evaluate_accuracy_main ::
  "(string \<Rightarrow> real option) \<Rightarrow> row csv_file option \<Rightarrow> eval_outcome"
where
  "evaluate_accuracy_main py_float csv_path =
     (case load_predictions_from_csv py_float csv_path of
        Inl e \<Rightarrow> if e = FileNotFoundError then PredictionsFileMissing else Uncaught e
      | Inr predictions \<Rightarrow>
          if predictions = [] then NothingToAnalyze
          else Evaluated (calculate_overall_accuracy predictions)
                 (calculate_per_crop_statistics predictions)
                 (find_misclassified_images predictions))"

section \<open>Label Store Reader (\<open>load_answers_from_csv\<close> of \<open>src/utils.py\<close>)\<close>

text \<open>
  A row of the label table keeps what \<open>DictReader\<close> does with a line that has
  fewer fields than the header: the cells the line lacks are \<open>None\<close>. With the
  header \<open>filename,label\<close>, the line \<open>b.jpg\<close> is the row
  \<open>{'filename': 'b.jpg', 'label': None}\<close>.
\<close>

type_synonym label_row = "(string \<times> string option) list"

text \<open>
  \<open>row[key].strip()\<close>: \<open>KeyError\<close> when the header has no such column,
  \<open>AttributeError\<close> when the cell is \<open>None\<close>.
\<close>

definition stripped_cell :: "label_row \<Rightarrow> string \<Rightarrow> exn + string" where
  "stripped_cell r k =
     (case map_of r k of
        None \<Rightarrow> Inl KeyError
      | Some None \<Rightarrow> Inl AttributeError
      | Some (Some cell) \<Rightarrow> Inr (strip cell))"

text \<open>
  The \<open>for row in csv_reader\<close> loop. The second accumulator is the console: the
  filenames for which the empty-label warning was printed, in order. The note naming
  the encoding that succeeded is not modelled.
\<close>

fun read_label_rows ::
  "label_row read_event list \<Rightarrow> (string \<times> string) list \<Rightarrow> string list
     \<Rightarrow> (exn + (string \<times> string) list) \<times> string list"
where
  "read_label_rows [] labels_dict warnings = (Inr labels_dict, warnings)"
| "read_label_rows (Raise e # rest) labels_dict warnings = (Inl e, warnings)"
| "read_label_rows (Row r # rest) labels_dict warnings =
     (case stripped_cell r ''filename'' of
        Inl e \<Rightarrow> (Inl e, warnings)
      | Inr image_name \<Rightarrow>
          (case stripped_cell r ''label'' of
             Inl e \<Rightarrow> (Inl e, warnings)
           | Inr label \<Rightarrow>
               if label = []
               then read_label_rows rest labels_dict (warnings @ [image_name])
               else read_label_rows rest (dict_set image_name label labels_dict) warnings))"

fun try_label_encodings ::
  "label_row csv_file \<Rightarrow> encoding list \<Rightarrow> (string \<times> string) list \<Rightarrow> string list
     \<Rightarrow> (exn + (string \<times> string) list) \<times> string list"
where
  "try_label_encodings f [] labels_dict warnings = (Inr labels_dict, warnings)"
| "try_label_encodings f (enc # encs) labels_dict warnings =
     (case read_label_rows (f enc) labels_dict warnings of
        (Inr d, w) \<Rightarrow> (Inr d, w)
      | (Inl e, w) \<Rightarrow> if caught e then try_label_encodings f encs [] w else (Inl e, w))"

definition load_answers_from_csv ::
  "label_row csv_file option \<Rightarrow> (exn + (string \<times> string) list) \<times> string list"
where
  "load_answers_from_csv csv_path =
     (case csv_path of
        None \<Rightarrow> (Inl FileNotFoundError, [])
      | Some f \<Rightarrow>
          (case try_label_encodings f encodings_to_try [] [] of
             (Inl e, w) \<Rightarrow> (Inl e, w)
           | (Inr labels_dict, w) \<Rightarrow>
               if labels_dict = [] then (Inl ValueError, w) else (Inr labels_dict, w)))"

text \<open>
  The part of \<open>main\<close> of the classification script that loads the labels: it
  handles \<open>FileNotFoundError\<close> and \<open>ValueError\<close> (of which \<open>UnicodeError\<close> and
  \<open>UnicodeDecodeError\<close> are subclasses); any other exception leaves \<open>main\<close>.
\<close>

datatype labels_outcome =
    LabelsMissing
  | LabelsUnreadable
  | LabelsLoaded "(string \<times> string) list"
  | LabelsUncaught exn

definition load_labels_in_main :: "label_row csv_file option \<Rightarrow> labels_outcome" where
  "load_labels_in_main csv_path =
     (case fst (load_answers_from_csv csv_path) of
        Inl e \<Rightarrow>
          if e = FileNotFoundError then LabelsMissing
          else if e = ValueError \<or> e = UnicodeError \<or> e = UnicodeDecodeError
          then LabelsUnreadable
          else LabelsUncaught e
      | Inr answers_dict \<Rightarrow> LabelsLoaded answers_dict)"

section \<open>Image directories\<close>

text \<open>
  A directory is the list of its entries in the order \<open>iterdir\<close> yields them, or
  \<open>None\<close> when the folder does not exist. \<open>suffix\<close> is \<open>pathlib\<close>'s
  \<open>PurePath.suffix\<close>: the part of the name from its last dot, unless that dot
  is the first or the last character.
\<close>

record dir_entry =
  name :: string
  is_file :: bool

fun rfind :: "char \<Rightarrow> string \<Rightarrow> nat option" where
  "rfind c [] = None"
| "rfind c (x # xs) =
     (case rfind c xs of
        Some i \<Rightarrow> Some (Suc i)
      | None \<Rightarrow> if x = c then Some 0 else None)"

definition suffix :: "string \<Rightarrow> string" where
  "suffix nm =
     (case rfind (CHR ''.'') nm of
        None \<Rightarrow> []
      | Some i \<Rightarrow> if 0 < i \<and> i + 1 < length nm then drop i nm else [])"

section \<open>Answer-Template Generator (\<open>src/create_answer_template.py\<close>)\<close>

definition TEMPLATE_IMAGE_EXTENSIONS :: "string list" where
  "TEMPLATE_IMAGE_EXTENSIONS = [''.jpg'', ''.jpeg'', ''.png'', ''.bmp'', ''.gif'']"

definition get_all_image_files :: "'a dir_entry_scheme list option \<Rightarrow> 'a dir_entry_scheme list" where
  "get_all_image_files folder_path =
     (case folder_path of
        None \<Rightarrow> []
      | Some entries \<Rightarrow>
          sort_key name
            (filter (\<lambda>file_path. is_file file_path \<and>
                       lower (suffix (name file_path)) \<in> set TEMPLATE_IMAGE_EXTENSIONS)
               entries))"

text \<open>
  The file \<open>create_answer_template\<close> writes, as the rows handed to the
  \<open>DictWriter\<close>: the header, then one row per image.
\<close>

definition create_answer_template :: "'a dir_entry_scheme list \<Rightarrow> string list list" where
  "create_answer_template image_files =
     [''filename'', ''label''] # map (\<lambda>image_file. [name image_file, []]) image_files"

text \<open>\<open>main\<close> of the generator: \<open>None\<close> when it stops without writing a file.\<close>

definition create_answer_template_main :: "'a dir_entry_scheme list option \<Rightarrow> string list list option" where
  "create_answer_template_main folder_path =
     (let image_files = get_all_image_files folder_path
      in if image_files = [] then None else Some (create_answer_template image_files))"

section \<open>Vision Classifier Adapter and Batch Classification Driver\<close>

text \<open>
  What \<open>json.loads\<close> returns: \<open>JNull\<close> is Python's \<open>None\<close>, a \<open>JDict\<close> is a
  \<open>dict\<close>.
\<close>

datatype json =
    JNull
  | JBool bool
  | JInt int
  | JFloat real
  | JStr string
  | JList "json list"
  | JDict "(string \<times> json) list"

text \<open>
  The outcome of the request \<open>call_vision_api\<close> sends for one image: an exception
  anywhere inside its outer \<open>try\<close> (transport or service error, a reply without
  text), a reply whose stripped text \<open>json.loads\<close> rejects, or the value
  \<open>json.loads\<close> returns. In the first two cases the function prints a message and
  returns \<open>None\<close>. The prompt and the model name do not enter the model: the reply
  is given.
\<close>

datatype api_response = ApiError | NotJson | Parsed json

definition call_vision_api :: "api_response \<Rightarrow> json" where
  "call_vision_api response =
     (case response of
        ApiError \<Rightarrow> JNull
      | NotJson \<Rightarrow> JNull
      | Parsed result \<Rightarrow> result)"

text \<open>
  An image of the batch: its directory entry, the base64 text of its bytes
  (\<open>None\<close> when the file cannot be found by \<open>load_image_as_base64\<close>) and the
  outcome of the request made for it.
\<close>

record image_entry = dir_entry +
  content :: "string option"
  reply :: api_response

definition BASE64_IMAGE_PREFIX :: string where
  "BASE64_IMAGE_PREFIX = ''data:image/jpeg;base64,''"

definition load_image_as_base64 :: "'a image_entry_scheme \<Rightarrow> exn + string" where
  "load_image_as_base64 image_path =
     (case content image_path of
        None \<Rightarrow> Inl FileNotFoundError
      | Some encoded_image \<Rightarrow> Inr (BASE64_IMAGE_PREFIX @ encoded_image))"

text \<open>\<open>result.get(key, default)\<close>: only a \<open>dict\<close> has the method.\<close>

definition json_get :: "json \<Rightarrow> string \<Rightarrow> json \<Rightarrow> exn + json" where
  "json_get result k dflt =
     (case result of
        JDict kvs \<Rightarrow> Inr (case map_of kvs k of None \<Rightarrow> dflt | Some v \<Rightarrow> v)
      | _ \<Rightarrow> Inl AttributeError)"

type_synonym driver_prediction = "(json, json) prediction"

definition error_prediction :: "string \<Rightarrow> string \<Rightarrow> driver_prediction" where
  "error_prediction image_name label =
     \<lparr>filename = image_name, true_label = label,
      pred_label = JStr ''ERROR'', pred_confidence = JFloat 0\<rparr>"

text \<open>The body of the \<open>try\<close> of \<open>classify_single_image\<close>.\<close>

definition classify_attempt :: "'a image_entry_scheme \<Rightarrow> string \<Rightarrow> exn + driver_prediction" where
  "classify_attempt image_path label =
     (case load_image_as_base64 image_path of
        Inl e \<Rightarrow> Inl e
      | Inr image_base64 \<Rightarrow>
          let prediction_result = call_vision_api (reply image_path) in
          if prediction_result = JNull then Inr (error_prediction (name image_path) label)
          else
            (case json_get prediction_result ''crop'' (JStr ''unknown'') of
               Inl e \<Rightarrow> Inl e
             | Inr predicted_crop \<Rightarrow>
                 (case json_get prediction_result ''confidence'' (JFloat 0) of
                    Inl e \<Rightarrow> Inl e
                  | Inr predicted_confidence \<Rightarrow>
                      Inr \<lparr>filename = name image_path, true_label = label,
                           pred_label = predicted_crop,
                           pred_confidence = predicted_confidence\<rparr>)))"

text \<open>\<open>except Exception\<close> turns every exception of the body into the \<open>ERROR\<close> record.\<close>

definition classify_single_image :: "'a image_entry_scheme \<Rightarrow> string \<Rightarrow> driver_prediction" where
  "classify_single_image image_path label =
     (case classify_attempt image_path label of
        Inr prediction \<Rightarrow> prediction
      | Inl error \<Rightarrow> error_prediction (name image_path) label)"

text \<open>
  \<open>display_progress\<close> returns the correct/incorrect indicator it prints. It calls
  \<open>.lower()\<close> on the predicted label, which only a string has, and formats
  \<open>confidence * 100\<close> with \<open>:.1f\<close>, which only a number accepts (an integer too
  large for a float is not modelled).
\<close>

definition display_progress :: "json \<Rightarrow> json \<Rightarrow> string \<Rightarrow> exn + bool" where
  "display_progress predicted_label confidence label =
     (case predicted_label of
        JStr s \<Rightarrow>
          (let is_correct = (lower s = lower label) in
           case confidence of
             JBool b \<Rightarrow> Inr is_correct
           | JInt n \<Rightarrow> Inr is_correct
           | JFloat x \<Rightarrow> Inr is_correct
           | JStr t \<Rightarrow> Inl ValueError
           | _ \<Rightarrow> Inl TypeError)
      | _ \<Rightarrow> Inl AttributeError)"

definition DRIVER_IMAGE_EXTENSIONS :: "string list" where
  "DRIVER_IMAGE_EXTENSIONS = [''.jpg'', ''.jpeg'', ''.png'']"

definition validate_image_file :: "'a dir_entry_scheme \<Rightarrow> bool" where
  "validate_image_file file_path =
     (if \<not> is_file file_path then False
      else lower (suffix (name file_path)) \<in> set DRIVER_IMAGE_EXTENSIONS)"

definition get_image_files :: "'a dir_entry_scheme list option \<Rightarrow> 'a dir_entry_scheme list" where
  "get_image_files folder_path =
     (case folder_path of
        None \<Rightarrow> []
      | Some entries \<Rightarrow> sort_key name (filter validate_image_file entries))"

text \<open>
  The classification loop of \<open>main\<close>. The state is \<open>all_predictions\<close> and the
  filenames reported as having no label; an exception of \<open>display_progress\<close>
  leaves \<open>main\<close>.
\<close>

fun classify_loop ::
  "'a image_entry_scheme list \<Rightarrow> (string \<times> string) list
     \<Rightarrow> driver_prediction list \<times> string list
     \<Rightarrow> exn + driver_prediction list \<times> string list"
where
  "classify_loop [] answers_dict state = Inr state"
| "classify_loop (image_path # rest) answers_dict (all_predictions, no_label) =
     (let label = (case map_of answers_dict (name image_path) of
                     None \<Rightarrow> ''unknown'' | Some l \<Rightarrow> l)
      in if label = ''unknown''
         then classify_loop rest answers_dict (all_predictions, no_label @ [name image_path])
         else
           let prediction = classify_single_image image_path label in
           (case display_progress (pred_label prediction) (pred_confidence prediction) label of
              Inl e \<Rightarrow> Inl e
            | Inr shown \<Rightarrow>
                classify_loop rest answers_dict (all_predictions @ [prediction], no_label)))"

section \<open>Notions the specification uses\<close>


text \<open>A confidence as the specification describes it: a float in the interval \<open>[0,1]\<close>.\<close>

definition unit_float :: "json \<Rightarrow> bool" where
  "unit_float v = (case v of JFloat x \<Rightarrow> 0 \<le> x \<and> x \<le> 1 | _ \<Rightarrow> False)"

text \<open>
  The relative error of an accuracy: the quotient \<open>correct / total\<close> and its
  product with \<open>100\<close> are each rounded once, each with a relative error of at most
  \<open>2^-53\<close>.
\<close>

definition accuracy_rounding :: real where
  "accuracy_rounding = (1 + 1 / 2 ^ 53)\<^sup>2 - 1"

section \<open>Example inputs\<close>

text \<open>Four retained records: two correct (one only up to case), two misclassified.\<close>

definition example_predictions :: "eval_prediction list" where
  "example_predictions =
     [\<lparr>filename = ''a.jpg'', true_label = ''apple'', pred_label = ''Apple'',
       pred_confidence = 3 / 4\<rparr>,
      \<lparr>filename = ''b.jpg'', true_label = ''grape'', pred_label = ''grape'',
       pred_confidence = 1 / 2\<rparr>,
      \<lparr>filename = ''x'', true_label = ''cat'', pred_label = ''dog'',
       pred_confidence = 3 / 4\<rparr>,
      \<lparr>filename = ''c.jpg'', true_label = ''apple'', pred_label = ''pear'',
       pred_confidence = 1 / 4\<rparr>]"

text \<open>
  Four retained records, three of the crop \<open>apple\<close> with one of them correct, and
  one wrong record of the crop \<open>grape\<close>.
\<close>

definition rounding_predictions :: "eval_prediction list" where
  "rounding_predictions =
     [\<lparr>filename = ''a.jpg'', true_label = ''apple'', pred_label = ''apple'',
       pred_confidence = 1 / 2\<rparr>,
      \<lparr>filename = ''b.jpg'', true_label = ''apple'', pred_label = ''pear'',
       pred_confidence = 1 / 2\<rparr>,
      \<lparr>filename = ''c.jpg'', true_label = ''apple'', pred_label = ''plum'',
       pred_confidence = 1 / 2\<rparr>,
      \<lparr>filename = ''d.jpg'', true_label = ''grape'', pred_label = ''plum'',
       pred_confidence = 1 / 2\<rparr>]"

text \<open>
  Python's \<open>float\<close> on the three literals the example tables use; any other text is
  rejected by this stand-in.
\<close>

definition example_float :: "string \<Rightarrow> real option" where
  "example_float s =
     (if s = ''0.9'' then Some (9 / 10)
      else if s = ''0.5'' then Some (1 / 2)
      else if s = ''0.0'' then Some 0
      else None)"

text \<open>A predictions table with one data row, whose \<open>pred_label\<close> is \<open>ERROR\<close>.\<close>

definition all_error_table :: "row csv_file" where
  "all_error_table enc =
     [Row [(''filename'', ''c.jpg''), (''true_label'', ''apple''),
           (''pred_label'', ''ERROR''), (''pred_confidence'', ''0.0'')]]"

text \<open>A predictions table with two case variants of the sentinel and the sentinel itself.\<close>

definition case_variant_table :: "row csv_file" where
  "case_variant_table enc =
     [Row [(''filename'', ''a.jpg''), (''true_label'', ''error''),
           (''pred_label'', ''Error''), (''pred_confidence'', ''0.9'')],
      Row [(''filename'', ''b.jpg''), (''true_label'', ''apple''),
           (''pred_label'', ''ERROR''), (''pred_confidence'', ''0.0'')],
      Row [(''filename'', ''c.jpg''), (''true_label'', ''apple''),
           (''pred_label'', ''error''), (''pred_confidence'', ''0.5'')]]"

text \<open>
  The same table in a legacy encoding: decoding it as UTF-8 fails (after one row under
  the first encoding), \<open>cp949\<close> reads it.
\<close>

definition legacy_variant_table :: "row csv_file" where
  "legacy_variant_table enc =
     (case enc of
        Utf8Sig \<Rightarrow>
          [Row [(''filename'', ''a.jpg''), (''true_label'', ''error''),
                (''pred_label'', ''Error''), (''pred_confidence'', ''0.9'')],
           Raise UnicodeDecodeError]
      | Utf8 \<Rightarrow> [Raise UnicodeDecodeError]
      | _ \<Rightarrow> case_variant_table enc)"

text \<open>
  Label tables: one with blank labels only, one mixed, one with the label \<open>unknown\<close>,
  and one whose second line, \<open>b.jpg\<close>, has no label field.
\<close>

definition blank_label_table :: "label_row csv_file" where
  "blank_label_table enc =
     [Row [(''filename'', Some ''img_1.jpg''), (''label'', Some [])],
      Row [(''filename'', Some '' img_2.jpg''), (''label'', Some ''  '')]]"

definition partly_labelled_table :: "label_row csv_file" where
  "partly_labelled_table enc =
     [Row [(''filename'', Some ''img_1.jpg''), (''label'', Some '' apple '')],
      Row [(''filename'', Some ''img_2.jpg''), (''label'', Some ''  '')],
      Row [(''filename'', Some ''img_3.jpg''), (''label'', Some ''unknown'')]]"

definition unknown_label_table :: "label_row csv_file" where
  "unknown_label_table enc =
     [Row [(''filename'', Some ''a.jpg''), (''label'', Some ''unknown'')],
      Row [(''filename'', Some ''b.jpg''), (''label'', Some ''apple'')]]"

definition short_line_table :: "label_row csv_file" where
  "short_line_table enc =
     [Row [(''filename'', Some ''a.jpg''), (''label'', Some ''apple'')],
      Row [(''filename'', Some ''b.jpg''), (''label'', None)]]"


text \<open>Images of a batch with the replies the examples need.\<close>

definition missing_crop_image :: image_entry where
  "missing_crop_image =
     \<lparr>name = ''a.jpg'', is_file = True, content = Some ''QUJD'',
      reply = Parsed (JDict [(''confidence'', JFloat (1 / 2))])\<rparr>"

definition percent_image :: image_entry where
  "percent_image =
     \<lparr>name = ''a.jpg'', is_file = True, content = Some ''QUJD'',
      reply = Parsed (JDict [(''crop'', JStr ''apple''), (''confidence'', JFloat 93)])\<rparr>"

definition error_named_image :: image_entry where
  "error_named_image =
     \<lparr>name = ''a.jpg'', is_file = True, content = Some ''QUJD'',
      reply = Parsed (JDict [(''crop'', JStr ''ERROR''), (''confidence'', JFloat (9 / 10))])\<rparr>"

definition good_image :: image_entry where
  "good_image =
     \<lparr>name = ''a.jpg'', is_file = True, content = Some ''QUJD'',
      reply = Parsed (JDict [(''crop'', JStr ''apple''), (''confidence'', JFloat (9 / 10))])\<rparr>"

definition second_image :: image_entry where
  "second_image =
     \<lparr>name = ''b.jpg'', is_file = True, content = Some ''REVG'',
      reply = Parsed (JDict [(''crop'', JStr ''Apple''), (''confidence'', JFloat (1 / 2))])\<rparr>"

definition failed_image :: image_entry where
  "failed_image =
     \<lparr>name = ''a.jpg'', is_file = True, content = Some ''QUJD'', reply = ApiError\<rparr>"

definition list_reply_image :: image_entry where
  "list_reply_image =
     \<lparr>name = ''a.jpg'', is_file = True, content = Some ''QUJD'',
      reply = Parsed (JList [JStr ''apple'', JFloat (9 / 10)])\<rparr>"

definition numeric_crop_image :: image_entry where
  "numeric_crop_image =
     \<lparr>name = ''a.jpg'', is_file = True, content = Some ''QUJD'',
      reply = Parsed (JDict [(''crop'', JInt 5), (''confidence'', JFloat (9 / 10))])\<rparr>"

section \<open>Properties of the rounding\<close>

lemma pow2_pos: "0 < pow2 e"
  by (simp add: pow2_def)

lemma pow2_powr: "pow2 e = 2 powr (real_of_int e)"
  by (simp add: pow2_def powr_real_of_int inverse_eq_divide)

lemma pow2_succ: "pow2 (e + 1) = 2 * pow2 e"
  by (simp add: pow2_powr powr_add)

lemma pow2_pred: "pow2 (e - 1) = pow2 e / 2"
  by (simp add: pow2_powr powr_diff)

text \<open>\<open>to_significand\<close> keeps the value and ends with a significand in \<open>[2^52, 2^53)\<close>.\<close>

lemma to_significand_normal:
  "0 < x \<Longrightarrow> to_significand x e = (m, e') \<Longrightarrow>
   m * pow2 e' = x * pow2 e \<and> 2 ^ 52 \<le> m \<and> m < 2 ^ 53"
proof (induction x e rule: to_significand.induct)
  case (1 x e)
  show ?case
  proof (cases "2 ^ 53 \<le> x")
    case True
    then have step: "to_significand x e = to_significand (x / 2) (e + 1)"
      using "1.prems"(1) by (subst to_significand.simps) simp
    have "m * pow2 e' = x / 2 * pow2 (e + 1) \<and> 2 ^ 52 \<le> m \<and> m < 2 ^ 53"
      using "1.IH"(1) "1.prems" True step by simp
    then show ?thesis
      by (simp add: pow2_succ)
  next
    case False
    show ?thesis
    proof (cases "x < 2 ^ 52")
      case True
      then have step: "to_significand x e = to_significand (2 * x) (e - 1)"
        using "1.prems"(1) False by (subst to_significand.simps) simp
      have "m * pow2 e' = 2 * x * pow2 (e - 1) \<and> 2 ^ 52 \<le> m \<and> m < 2 ^ 53"
        using "1.IH"(2) "1.prems" False True step by simp
      then show ?thesis
        by (simp add: pow2_pred)
    next
      case inside: False
      then have "to_significand x e = (x, e)"
        using "1.prems"(1) False by (subst to_significand.simps) simp
      with "1.prems"(2) have "m = x" "e' = e"
        by simp_all
      then show ?thesis
        using False inside by simp
    qed
  qed
qed

lemma to_significand_scaled:
  "2 ^ 52 \<le> m \<Longrightarrow> m < 2 ^ 53 \<Longrightarrow> to_significand (m / 2 ^ n) e = (m, e - int n)"
proof (induction n arbitrary: e)
  case 0
  then show ?case
    by (subst to_significand.simps) simp
next
  case (Suc n)
  have pos: "0 < m / 2 ^ Suc n"
    using Suc.prems(1) by (simp add: less_le_trans [of 0 "2 ^ 52" m])
  have "m / 2 ^ Suc n \<le> m / 2"
    by (rule divide_left_mono) (use Suc.prems(1) in \<open>simp_all add: self_le_power\<close>)
  then have small: "m / 2 ^ Suc n < 2 ^ 52"
    using Suc.prems(2) by simp
  have "to_significand (m / 2 ^ Suc n) e = to_significand (2 * (m / 2 ^ Suc n)) (e - 1)"
    using pos small by (subst to_significand.simps) simp
  also have "2 * (m / 2 ^ Suc n) = m / 2 ^ n"
    by simp
  finally show ?case
    using Suc.IH [OF Suc.prems, of "e - 1"] by simp
qed

lemma round_half_even_error: "\<bar>real_of_int (round_half_even y) - y\<bar> \<le> 1 / 2"
  unfolding round_half_even_def Let_def by (auto simp: abs_le_iff)

lemma round_half_even_nonneg: "0 \<le> y \<Longrightarrow> 0 \<le> round_half_even y"
  unfolding round_half_even_def Let_def by auto

lemma fl_zero: "fl 0 = 0"
  by (simp add: fl_def)

text \<open>How \<open>fl\<close> is computed once the exponent is known.\<close>

lemma fl_scaled:
  assumes "2 ^ 52 \<le> x * 2 ^ n" and "x * 2 ^ n < 2 ^ 53"
  shows "fl x = real_of_int (round_half_even (x * 2 ^ n)) / 2 ^ n"
proof -
  have pos: "0 < x"
  proof (rule ccontr)
    assume "\<not> 0 < x"
    then have "x * 2 ^ n \<le> 0"
      by (simp add: mult_le_0_iff)
    with assms(1) show False
      by simp
  qed
  have "to_significand x 0 = (x * 2 ^ n, 0 - int n)"
    using to_significand_scaled [OF assms, of n 0] by simp
  then show ?thesis
    using pos by (simp add: fl_def pow2_def)
qed

text \<open>Rounding a non-negative real changes it by at most the fraction \<open>2^-53\<close> of it.\<close>

lemma fl_error:
  assumes "0 \<le> x"
  shows "\<bar>fl x - x\<bar> \<le> x / 2 ^ 53"
proof (cases "x = 0")
  case True
  then show ?thesis
    by (simp add: fl_zero)
next
  case False
  with assms have pos: "0 < x"
    by simp
  obtain m e where me: "to_significand x 0 = (m, e)"
    by (cases "to_significand x 0")
  from to_significand_normal [OF pos me]
  have x: "m * pow2 e = x" and lo: "2 ^ 52 \<le> m" and hi: "m < 2 ^ 53"
    by (simp_all add: pow2_def)
  have f: "fl x = real_of_int (round_half_even m) * pow2 e"
    using pos me by (simp add: fl_def)
  have "fl x - x = (real_of_int (round_half_even m) - m) * pow2 e"
    unfolding f using x by (simp add: algebra_simps)
  then have "\<bar>fl x - x\<bar> = \<bar>real_of_int (round_half_even m) - m\<bar> * pow2 e"
    using pow2_pos [of e] by (simp add: abs_mult)
  also have "\<dots> \<le> 1 / 2 * pow2 e"
    using round_half_even_error [of m] pow2_pos [of e] by (intro mult_right_mono) simp_all
  also have "\<dots> \<le> x / 2 ^ 53"
  proof -
    have "2 ^ 52 * pow2 e \<le> m * pow2 e"
      using lo pow2_pos [of e] by (intro mult_right_mono) simp_all
    then have "2 ^ 52 * pow2 e \<le> x"
      using x by simp
    then show ?thesis
      by (simp add: field_simps)
  qed
  finally show ?thesis .
qed

lemma fl_nonneg:
  assumes "0 \<le> x"
  shows "0 \<le> fl x"
proof (cases "x = 0")
  case True
  then show ?thesis
    by (simp add: fl_zero)
next
  case False
  with assms have pos: "0 < x"
    by simp
  obtain m e where me: "to_significand x 0 = (m, e)"
    by (cases "to_significand x 0")
  from to_significand_normal [OF pos me] have "0 \<le> m"
    by simp
  then have "0 \<le> round_half_even m"
    by (rule round_half_even_nonneg)
  then show ?thesis
    using pos me pow2_pos [of e] by (simp add: fl_def)
qed

text \<open>The values the examples need.\<close>

lemma fl_examples:
  "fl (1 / 4) = 1 / 4" "fl (1 / 2) = 1 / 2" "fl (3 / 4) = 3 / 4" "fl 1 = 1"
  "fl (3 / 2) = 3 / 2" "fl 2 = 2" "fl 3 = 3" "fl 25 = 25" "fl 50 = 50" "fl 100 = 100"
  by (simp_all add: fl_scaled [where n = 54] fl_scaled [where n = 53] fl_scaled [where n = 52]
        fl_scaled [where n = 51] fl_scaled [where n = 48] fl_scaled [where n = 47]
        fl_scaled [where n = 46] round_half_even_def)

lemma fl_third: "fl (1 / 3) = 6004799503160661 / 18014398509481984"
  by (simp add: fl_scaled [where n = 54] round_half_even_def)

text \<open>
  The accuracy \<open>fl (fl (c / t) * 100)\<close> of \<open>c\<close> correct records among \<open>t\<close> differs
  from the exact percentage by at most the fraction \<open>accuracy_rounding\<close> of it.
\<close>

lemma accuracy_error:
  assumes "0 \<le> c" and "0 < t"
  shows "\<bar>fl (fl (real_of_int c / real_of_int t) * 100) - 100 * (real_of_int c / real_of_int t)\<bar>
           \<le> 100 * (real_of_int c / real_of_int t) * accuracy_rounding"
proof -
  define q where "q = real_of_int c / real_of_int t"
  define u :: real where "u = 1 / 2 ^ 53"
  define a where "a = fl q"
  have q: "0 \<le> q"
    using assms by (simp add: q_def)
  have u: "0 \<le> u"
    by (simp add: u_def)
  have a: "0 \<le> a"
    unfolding a_def using q by (rule fl_nonneg)
  have e1: "\<bar>a - q\<bar> \<le> q * u"
    unfolding a_def u_def using fl_error [OF q] by simp
  then have a_le: "a \<le> q + q * u"
    by linarith
  have a100: "0 \<le> a * 100"
    using a by simp
  have e2: "\<bar>fl (a * 100) - a * 100\<bar> \<le> a * 100 * u"
    unfolding u_def using fl_error [OF a100] by simp
  have "a * 100 * u \<le> (q + q * u) * 100 * u"
    using a_le u by (intro mult_right_mono) simp_all
  with e2 have e3: "\<bar>fl (a * 100) - a * 100\<bar> \<le> (q + q * u) * 100 * u"
    by linarith
  have "fl (a * 100) - 100 * q = (fl (a * 100) - a * 100) + 100 * (a - q)"
    by simp
  then have "\<bar>fl (a * 100) - 100 * q\<bar> \<le> \<bar>fl (a * 100) - a * 100\<bar> + \<bar>100 * (a - q)\<bar>"
    using abs_triangle_ineq [of "fl (a * 100) - a * 100" "100 * (a - q)"] by simp
  also have "\<bar>100 * (a - q)\<bar> = 100 * \<bar>a - q\<bar>"
    unfolding abs_mult by simp
  also have "\<bar>fl (a * 100) - a * 100\<bar> + 100 * \<bar>a - q\<bar> \<le> (q + q * u) * 100 * u + 100 * (q * u)"
  proof (rule add_mono [OF e3])
    show "100 * \<bar>a - q\<bar> \<le> 100 * (q * u)"
      using e1 by simp
  qed
  also have "\<dots> = 100 * q * ((1 + u)\<^sup>2 - 1)"
    by (simp add: power2_eq_square algebra_simps)
  finally show ?thesis
    by (simp add: q_def a_def u_def accuracy_rounding_def)
qed

lemma accuracy_rounding_small: "0 \<le> accuracy_rounding \<and> 200 * accuracy_rounding \<le> 1 / 2 ^ 44"
  by (simp add: accuracy_rounding_def power2_eq_square)

section \<open>Properties of the Evaluation Engine\<close>

lemma count_correct_acc:
  "count_correct ps c =
     c + int (length (filter (\<lambda>p. lower (true_label p) = lower (pred_label p)) ps))"
  by (induction ps arbitrary: c) simp_all

lemma count_correct_from_zero:
  "count_correct ps 0 =
     int (length (filter (\<lambda>p. lower (true_label p) = lower (pred_label p)) ps))"
  by (simp add: count_correct_acc)

lemma overall_total: "total (calculate_overall_accuracy ps) = int (length ps)"
  by (simp add: calculate_overall_accuracy_def Let_def)

lemma overall_correct:
  "correct (calculate_overall_accuracy ps) =
     int (length (filter (\<lambda>p. lower (true_label p) = lower (pred_label p)) ps))"
  by (simp add: calculate_overall_accuracy_def Let_def count_correct_from_zero)

lemma collect_misclassified_acc:
  "collect_misclassified ps acc =
     acc @ filter (\<lambda>p. lower (true_label p) \<noteq> lower (pred_label p)) ps"
  by (induction ps arbitrary: acc) simp_all

lemma lower_words:
  "lower ''apple'' = ''apple''" "lower ''Apple'' = ''apple''" "lower ''grape'' = ''grape''"
  "lower ''cat'' = ''cat''" "lower ''dog'' = ''dog''" "lower ''pear'' = ''pear''"
  "lower ''plum'' = ''plum''" "lower ''error'' = ''error''" "lower ''Error'' = ''error''"
  by code_simp+

lemma example_overall:
  "calculate_overall_accuracy example_predictions = \<lparr>total = 4, correct = 2, accuracy = 50\<rparr>"
  by (simp add: calculate_overall_accuracy_def example_predictions_def lower_words fl_examples)

lemma example_per_crop:
  "calculate_per_crop_statistics example_predictions =
     [(''apple'', \<lparr>total = 2, correct = 1, accuracy = 50, avg_confidence = 1 / 2\<rparr>),
      (''grape'', \<lparr>total = 1, correct = 1, accuracy = 100, avg_confidence = 1 / 2\<rparr>),
      (''cat'', \<lparr>total = 1, correct = 0, accuracy = 0, avg_confidence = 3 / 4\<rparr>)]"
  by (simp add: calculate_per_crop_statistics_def example_predictions_def add_prediction_def
        default_crop_data_def crop_statistics_of_def lower_words fl_examples fl_zero)

lemma example_misclassified:
  "map filename (find_misclassified_images example_predictions) = [''x'', ''c.jpg'']"
  by (simp add: find_misclassified_images_def example_predictions_def lower_words)

lemma third_accuracy: "fl (fl (1 / 3) * 100) = 2345624805922133 / 70368744177664"
  by (simp add: fl_third fl_scaled [where n = 47] round_half_even_def)

lemma rounding_overall:
  "calculate_overall_accuracy rounding_predictions = \<lparr>total = 4, correct = 1, accuracy = 25\<rparr>"
  by (simp add: calculate_overall_accuracy_def rounding_predictions_def lower_words fl_examples)

lemma rounding_per_crop:
  "calculate_per_crop_statistics rounding_predictions =
     [(''apple'', \<lparr>total = 3, correct = 1, accuracy = 2345624805922133 / 70368744177664,
                  avg_confidence = 1 / 2\<rparr>),
      (''grape'', \<lparr>total = 1, correct = 0, accuracy = 0, avg_confidence = 1 / 2\<rparr>)]"
  by (simp add: calculate_per_crop_statistics_def rounding_predictions_def add_prediction_def
        default_crop_data_def crop_statistics_of_def lower_words fl_examples fl_zero
        third_accuracy)

lemma modify_total:
  "(\<Sum>(k, d) \<leftarrow> defaultdict_modify key (add_prediction p) crops. total d) =
   (\<Sum>(k, d) \<leftarrow> crops. total d) + 1"
  by (induction crops) (auto simp: add_prediction_def default_crop_data_def)

lemma modify_correct:
  "(\<Sum>(k, d) \<leftarrow> defaultdict_modify key (add_prediction p) crops. correct d) =
   (\<Sum>(k, d) \<leftarrow> crops. correct d) + (if lower (true_label p) = lower (pred_label p) then 1 else 0)"
  by (induction crops) (auto simp: add_prediction_def default_crop_data_def)

lemma modify_key_list:
  "map fst (defaultdict_modify key g crops) =
     (if key \<in> set (map fst crops) then map fst crops else map fst crops @ [key])"
proof (induction crops)
  case Nil
  then show ?case by simp
next
  case (Cons a crops)
  obtain k v where a: "a = (k, v)" by (cases a)
  show ?case
  proof (cases "k = key")
    case True
    with a show ?thesis by simp
  next
    case False
    with a Cons.IH show ?thesis by simp
  qed
qed

lemma modify_distinct:
  "distinct (map fst crops) \<Longrightarrow> distinct (map fst (defaultdict_modify key g crops))"
  by (simp add: modify_key_list)

lemma group_total:
  "(\<Sum>(k, d) \<leftarrow> group_by_crop ps crops. total d) = (\<Sum>(k, d) \<leftarrow> crops. total d) + int (length ps)"
  by (induction ps arbitrary: crops) (simp_all add: modify_total)

lemma group_correct:
  "(\<Sum>(k, d) \<leftarrow> group_by_crop ps crops. correct d) =
   (\<Sum>(k, d) \<leftarrow> crops. correct d) + int (length (filter (\<lambda>p. lower (true_label p) = lower (pred_label p)) ps))"
  by (induction ps arbitrary: crops) (simp_all add: modify_correct)

lemma modify_key_set:
  "set (map fst (defaultdict_modify key g crops)) = insert key (set (map fst crops))"
  unfolding modify_key_list by auto

lemma group_keys:
  "set (map fst (group_by_crop ps crops)) = set (map fst crops) \<union> true_label ` set ps"
proof (induction ps arbitrary: crops)
  case Nil
  then show ?case by simp
next
  case (Cons p ps)
  show ?case
    unfolding group_by_crop.simps Cons.IH modify_key_set by auto
qed

lemma group_distinct:
  "distinct (map fst crops) \<Longrightarrow> distinct (map fst (group_by_crop ps crops))"
  by (induction ps arbitrary: crops) (simp_all add: modify_distinct)

lemma stats_total:
  "(\<Sum>(k, s) \<leftarrow> map (\<lambda>(crop_name, d). (crop_name, crop_statistics_of d)) crops. total s) =
   (\<Sum>(k, d) \<leftarrow> crops. total d)"
  by (induction crops) (auto simp: crop_statistics_of_def)

lemma stats_correct:
  "(\<Sum>(k, s) \<leftarrow> map (\<lambda>(crop_name, d). (crop_name, crop_statistics_of d)) crops. correct s) =
   (\<Sum>(k, d) \<leftarrow> crops. correct d)"
  by (induction crops) (auto simp: crop_statistics_of_def)

lemma stats_keys:
  "map fst (map (\<lambda>(crop_name, d). (crop_name, crop_statistics_of d)) crops) = map fst crops"
  by (induction crops) auto

lemma abs_add_split:
  fixes x w y c :: real
  shows "\<bar>(x + w) - 100 * (y + c)\<bar> \<le> \<bar>x - 100 * y\<bar> + \<bar>w - 100 * c\<bar>"
proof -
  have "(x + w) - 100 * (y + c) = (x - 100 * y) + (w - 100 * c)"
    by (simp add: algebra_simps)
  then show ?thesis
    using abs_triangle_ineq [of "x - 100 * y" "w - 100 * c"] by simp
qed

lemma abs_both_close:
  fixes w v m b :: real
  assumes "\<bar>w - m\<bar> \<le> b" and "\<bar>v - m\<bar> \<le> b"
  shows "\<bar>w - v\<bar> \<le> 2 * b"
proof -
  have "w - v = (w - m) + (m - v)"
    by simp
  then have "\<bar>w - v\<bar> \<le> \<bar>w - m\<bar> + \<bar>m - v\<bar>"
    using abs_triangle_ineq [of "w - m" "m - v"] by simp
  moreover have "\<bar>m - v\<bar> = \<bar>v - m\<bar>"
    by (rule abs_minus_commute)
  ultimately show ?thesis
    using assms by simp
qed

lemma modify_valid:
  "list_all (\<lambda>(k, d). 0 \<le> correct d \<and> 0 < total d) crops \<Longrightarrow>
   list_all (\<lambda>(k, d). 0 \<le> correct d \<and> 0 < total d)
     (defaultdict_modify key (add_prediction p) crops)"
  by (induction crops) (auto simp: add_prediction_def default_crop_data_def)

lemma group_valid:
  "list_all (\<lambda>(k, d). 0 \<le> correct d \<and> 0 < total d) crops \<Longrightarrow>
   list_all (\<lambda>(k, d). 0 \<le> correct d \<and> 0 < total d) (group_by_crop ps crops)"
  by (induction ps arbitrary: crops) (simp_all add: modify_valid)

text \<open>
  A category's accuracy times its total differs from \<open>100 * correct\<close> by at most
  the fraction \<open>accuracy_rounding\<close> of it; so does the sum over the categories.
\<close>

lemma weighted_entry:
  assumes "0 \<le> correct d" and "0 < total d"
  shows "\<bar>accuracy (crop_statistics_of d) * real_of_int (total (crop_statistics_of d))
            - 100 * real_of_int (correct d)\<bar>
           \<le> 100 * real_of_int (correct d) * accuracy_rounding"
proof -
  define c where "c = real_of_int (correct d)"
  define t where "t = real_of_int (total d)"
  define a where "a = fl (fl (c / t) * 100)"
  have t: "0 < t"
    using assms(2) by (simp add: t_def)
  have "\<bar>a - 100 * (c / t)\<bar> \<le> 100 * (c / t) * accuracy_rounding"
    unfolding a_def c_def t_def by (rule accuracy_error [OF assms])
  then have "\<bar>a - 100 * (c / t)\<bar> * t \<le> 100 * (c / t) * accuracy_rounding * t"
    using t by (intro mult_right_mono) simp_all
  moreover have "\<bar>a - 100 * (c / t)\<bar> * t = \<bar>a * t - 100 * c\<bar>"
  proof -
    have "\<bar>a - 100 * (c / t)\<bar> * t = \<bar>(a - 100 * (c / t)) * t\<bar>"
      using t by (simp add: abs_mult)
    also have "(a - 100 * (c / t)) * t = a * t - 100 * c"
      using t by (simp add: field_simps)
    finally show ?thesis .
  qed
  moreover have "100 * (c / t) * accuracy_rounding * t = 100 * c * accuracy_rounding"
    using t by simp
  ultimately have "\<bar>a * t - 100 * c\<bar> \<le> 100 * c * accuracy_rounding"
    by simp
  then show ?thesis
    by (simp add: crop_statistics_of_def a_def c_def t_def)
qed

lemma weighted_sum:
  assumes "list_all (\<lambda>(k, d). 0 \<le> correct d \<and> 0 < total d) crops"
  shows "\<bar>(\<Sum>(k, s) \<leftarrow> map (\<lambda>(crop_name, d). (crop_name, crop_statistics_of d)) crops.
              accuracy s * real_of_int (total s))
            - 100 * real_of_int (\<Sum>(k, d) \<leftarrow> crops. correct d)\<bar>
           \<le> 100 * real_of_int (\<Sum>(k, d) \<leftarrow> crops. correct d) * accuracy_rounding"
  using assms
proof (induction crops)
  case Nil
  then show ?case by simp
next
  case (Cons entry crops)
  obtain k d where entry: "entry = (k, d)"
    by (cases entry)
  let ?stats = "map (\<lambda>(crop_name, d). (crop_name, crop_statistics_of d))"
  let ?w = "\<lambda>xs. (\<Sum>(k, s) \<leftarrow> ?stats xs. accuracy s * real_of_int (total s))"
  let ?c = "\<lambda>xs. real_of_int (\<Sum>(k, d) \<leftarrow> xs. correct d)"
  define x where "x = accuracy (crop_statistics_of d) * real_of_int (total (crop_statistics_of d))"
  define y where "y = real_of_int (correct d)"
  from Cons.prems entry have d: "0 \<le> correct d" "0 < total d"
    and rest: "list_all (\<lambda>(k, d). 0 \<le> correct d \<and> 0 < total d) crops"
    by simp_all
  have one: "\<bar>x - 100 * y\<bar> \<le> 100 * y * accuracy_rounding"
    unfolding x_def y_def by (rule weighted_entry [OF d])
  have more: "\<bar>?w crops - 100 * ?c crops\<bar> \<le> 100 * ?c crops * accuracy_rounding"
    by (rule Cons.IH [OF rest])
  have w: "?w (entry # crops) = x + ?w crops"
    by (simp add: entry x_def)
  have c: "?c (entry # crops) = y + ?c crops"
    by (simp add: entry y_def)
  have "\<bar>(x + ?w crops) - 100 * (y + ?c crops)\<bar> \<le> \<bar>x - 100 * y\<bar> + \<bar>?w crops - 100 * ?c crops\<bar>"
    by (rule abs_add_split)
  also have "\<dots> \<le> 100 * y * accuracy_rounding + 100 * ?c crops * accuracy_rounding"
    by (rule add_mono [OF one more])
  also have "\<dots> = 100 * (y + ?c crops) * accuracy_rounding"
    by (simp add: algebra_simps)
  finally show ?case
    unfolding w c .
qed

lemma overall_weighted:
  "\<bar>accuracy (calculate_overall_accuracy ps) * real_of_int (total (calculate_overall_accuracy ps))
      - 100 * real_of_int (correct (calculate_overall_accuracy ps))\<bar>
     \<le> 100 * real_of_int (correct (calculate_overall_accuracy ps)) * accuracy_rounding"
proof (cases "ps = []")
  case True
  then show ?thesis
    by (simp add: calculate_overall_accuracy_def)
next
  case False
  define c where "c = count_correct ps 0"
  define t where "t = int (length ps)"
  have c0: "0 \<le> c"
    by (simp add: c_def count_correct_from_zero)
  have t0: "0 < t"
    using False by (simp add: t_def)
  define a where "a = fl (fl (real_of_int c / real_of_int t) * 100)"
  have "\<bar>a - 100 * (real_of_int c / real_of_int t)\<bar>
      \<le> 100 * (real_of_int c / real_of_int t) * accuracy_rounding"
    unfolding a_def by (rule accuracy_error [OF c0 t0])
  then have "\<bar>a - 100 * (real_of_int c / real_of_int t)\<bar> * real_of_int t
      \<le> 100 * (real_of_int c / real_of_int t) * accuracy_rounding * real_of_int t"
    using t0 by (intro mult_right_mono) simp_all
  moreover have "\<bar>a - 100 * (real_of_int c / real_of_int t)\<bar> * real_of_int t
      = \<bar>a * real_of_int t - 100 * real_of_int c\<bar>"
  proof -
    have "\<bar>a - 100 * (real_of_int c / real_of_int t)\<bar> * real_of_int t
        = \<bar>(a - 100 * (real_of_int c / real_of_int t)) * real_of_int t\<bar>"
      using t0 by (simp add: abs_mult)
    also have "(a - 100 * (real_of_int c / real_of_int t)) * real_of_int t
        = a * real_of_int t - 100 * real_of_int c"
      using t0 by (simp add: field_simps)
    finally show ?thesis .
  qed
  moreover have "100 * (real_of_int c / real_of_int t) * accuracy_rounding * real_of_int t
      = 100 * real_of_int c * accuracy_rounding"
    using t0 by simp
  ultimately have "\<bar>a * real_of_int t - 100 * real_of_int c\<bar>
      \<le> 100 * real_of_int c * accuracy_rounding"
    by simp
  moreover have "calculate_overall_accuracy ps = \<lparr>total = t, correct = c, accuracy = a\<rparr>"
    using False by (simp add: calculate_overall_accuracy_def Let_def a_def c_def t_def)
  ultimately show ?thesis
    by simp
qed

text \<open>
  Claim C5. For every list of retained records, the overall report has \<open>total\<close> the
  number of records, \<open>correct\<close> the number of records whose true and predicted labels
  agree after lower-casing, and \<open>accuracy = correct / total * 100\<close> as Python
  evaluates it (the quotient rounded to a double, the product rounded again), which
  is \<open>0.0\<close> when \<open>total\<close> is \<open>0\<close>.
\<close>

theorem overall_accuracy_report:
  "total (calculate_overall_accuracy ps) = int (length ps) \<and>
   correct (calculate_overall_accuracy ps) =
     int (length (filter (\<lambda>p. lower (true_label p) = lower (pred_label p)) ps)) \<and>
   accuracy (calculate_overall_accuracy ps) =
     (if total (calculate_overall_accuracy ps) = 0 then 0
      else fl (fl (real_of_int (correct (calculate_overall_accuracy ps)) /
                   real_of_int (total (calculate_overall_accuracy ps))) * 100))"
  by (simp add: calculate_overall_accuracy_def Let_def count_correct_from_zero)

theorem overall_accuracy_report_witness:
  "total (calculate_overall_accuracy example_predictions) = 4 \<and>
   correct (calculate_overall_accuracy example_predictions) = 2 \<and>
   length (filter (\<lambda>p. lower (true_label p) = lower (pred_label p)) example_predictions) = 2 \<and>
   accuracy (calculate_overall_accuracy example_predictions) = 2 / 4 * 100 \<and>
   accuracy (calculate_overall_accuracy []) = 0"
  using overall_accuracy_report [of example_predictions] overall_accuracy_report [of "[]"]
  by (simp add: example_overall)

text \<open>
  Claim C6, as amended. The categories are the distinct true labels; their totals
  sum to the overall total and their correct counts to the overall correct count,
  exactly. The accuracies are rounded floats, so they recombine only up to rounding:
  the sum of the category accuracies weighted by the category totals, taken exactly
  of the floats the code returns, differs from the overall accuracy times the
  overall total by at most \<open>200 * accuracy_rounding * correct\<close>, and, for a
  non-empty list, the weighted mean differs from the overall accuracy by at most
  \<open>200 * accuracy_rounding\<close>, which is at most \<open>2^-44\<close>.
\<close>

theorem per_crop_recombines:
  "(\<Sum>(k, s) \<leftarrow> calculate_per_crop_statistics ps. total s) =
      total (calculate_overall_accuracy ps) \<and>
   (\<Sum>(k, s) \<leftarrow> calculate_per_crop_statistics ps. correct s) =
      correct (calculate_overall_accuracy ps) \<and>
   \<bar>(\<Sum>(k, s) \<leftarrow> calculate_per_crop_statistics ps. accuracy s * real_of_int (total s))
      - accuracy (calculate_overall_accuracy ps) *
        real_of_int (total (calculate_overall_accuracy ps))\<bar>
     \<le> 200 * accuracy_rounding * real_of_int (correct (calculate_overall_accuracy ps)) \<and>
   (ps \<noteq> [] \<longrightarrow>
      \<bar>(\<Sum>(k, s) \<leftarrow> calculate_per_crop_statistics ps. accuracy s * real_of_int (total s)) /
         real_of_int (total (calculate_overall_accuracy ps))
        - accuracy (calculate_overall_accuracy ps)\<bar>
       \<le> 200 * accuracy_rounding) \<and>
   200 * accuracy_rounding \<le> 1 / 2 ^ 44 \<and>
   distinct (map fst (calculate_per_crop_statistics ps)) \<and>
   set (map fst (calculate_per_crop_statistics ps)) = true_label ` set ps"
proof -
  let ?o = "calculate_overall_accuracy ps"
  let ?w = "\<Sum>(k, s) \<leftarrow> calculate_per_crop_statistics ps. accuracy s * real_of_int (total s)"
  define c where "c = real_of_int (correct ?o)"
  define t where "t = real_of_int (total ?o)"
  define r where "r = accuracy_rounding"
  have r: "0 \<le> r" "200 * r \<le> 1 / 2 ^ 44"
    using accuracy_rounding_small by (simp_all add: r_def)
  have valid: "list_all (\<lambda>(k, d). 0 \<le> correct d \<and> 0 < total d) (group_by_crop ps [])"
    by (rule group_valid) simp
  have s1: "(\<Sum>(k, s) \<leftarrow> calculate_per_crop_statistics ps. total s) = total ?o"
    unfolding calculate_per_crop_statistics_def stats_total group_total
    by (simp add: overall_total)
  have s2: "(\<Sum>(k, s) \<leftarrow> calculate_per_crop_statistics ps. correct s) = correct ?o"
    unfolding calculate_per_crop_statistics_def stats_correct group_correct
    by (simp add: overall_correct)
  have sum_c: "real_of_int (\<Sum>(k, d) \<leftarrow> group_by_crop ps []. correct d) = c"
    unfolding group_correct by (simp add: c_def overall_correct)
  have w: "\<bar>?w - 100 * c\<bar> \<le> 100 * c * r"
    using weighted_sum [OF valid] unfolding calculate_per_crop_statistics_def sum_c r_def .
  have o: "\<bar>accuracy ?o * t - 100 * c\<bar> \<le> 100 * c * r"
    using overall_weighted [of ps] by (simp add: c_def t_def r_def)
  have s3: "\<bar>?w - accuracy ?o * t\<bar> \<le> 200 * r * c"
    using abs_both_close [OF w o] by (simp add: mult.commute mult.left_commute)
  have c0: "0 \<le> c"
    by (simp add: c_def overall_correct)
  have ct: "c \<le> t"
    by (simp add: c_def t_def overall_correct overall_total)
  have s4: "ps \<noteq> [] \<longrightarrow> \<bar>?w / t - accuracy ?o\<bar> \<le> 200 * r"
  proof
    assume "ps \<noteq> []"
    then have t0: "0 < t"
      by (simp add: t_def overall_total)
    have "?w / t - accuracy ?o = (?w - accuracy ?o * t) / t"
      using t0 by (simp add: field_simps)
    then have "\<bar>?w / t - accuracy ?o\<bar> = \<bar>?w - accuracy ?o * t\<bar> / t"
      using t0 by simp
    also have "\<dots> \<le> 200 * r * c / t"
      using s3 t0 by (intro divide_right_mono) simp_all
    also have "\<dots> \<le> 200 * r * t / t"
      using ct r(1) t0 by (intro divide_right_mono mult_left_mono) simp_all
    also have "\<dots> = 200 * r"
      using t0 by simp
    finally show "\<bar>?w / t - accuracy ?o\<bar> \<le> 200 * r" .
  qed
  have s5: "distinct (map fst (calculate_per_crop_statistics ps))"
    unfolding calculate_per_crop_statistics_def stats_keys
    by (rule group_distinct) simp
  have s6: "set (map fst (calculate_per_crop_statistics ps)) = true_label ` set ps"
    unfolding calculate_per_crop_statistics_def stats_keys group_keys by simp
  show ?thesis
    using s1 s2 s3 s4 r(2) s5 s6 unfolding c_def t_def r_def by blast
qed

theorem per_crop_recombines_witness:
  "example_predictions \<noteq> [] \<and>
   map (\<lambda>(k, s). (k, total s, correct s, accuracy s))
     (calculate_per_crop_statistics example_predictions) =
     [(''apple'', 2, 1, 50), (''grape'', 1, 1, 100), (''cat'', 1, 0, 0)] \<and>
   (\<Sum>(k, s) \<leftarrow> calculate_per_crop_statistics example_predictions. total s) = 4 \<and>
   (\<Sum>(k, s) \<leftarrow> calculate_per_crop_statistics example_predictions. correct s) = 2 \<and>
   accuracy (calculate_overall_accuracy example_predictions) = 50 \<and>
   \<bar>(\<Sum>(k, s) \<leftarrow> calculate_per_crop_statistics example_predictions.
        accuracy s * real_of_int (total s)) /
      real_of_int (total (calculate_overall_accuracy example_predictions))
     - accuracy (calculate_overall_accuracy example_predictions)\<bar>
     \<le> 200 * accuracy_rounding"
proof -
  have ne: "example_predictions \<noteq> []"
    by (simp add: example_predictions_def)
  have bound: "\<bar>(\<Sum>(k, s) \<leftarrow> calculate_per_crop_statistics example_predictions.
        accuracy s * real_of_int (total s)) /
      real_of_int (total (calculate_overall_accuracy example_predictions))
     - accuracy (calculate_overall_accuracy example_predictions)\<bar>
     \<le> 200 * accuracy_rounding"
    using ne per_crop_recombines [of example_predictions] by blast
  have sums: "(\<Sum>(k, s) \<leftarrow> calculate_per_crop_statistics example_predictions. total s) =
      total (calculate_overall_accuracy example_predictions)"
    "(\<Sum>(k, s) \<leftarrow> calculate_per_crop_statistics example_predictions. correct s) =
      correct (calculate_overall_accuracy example_predictions)"
    using per_crop_recombines [of example_predictions] by blast+
  have shown: "map (\<lambda>(k, s). (k, total s, correct s, accuracy s))
     (calculate_per_crop_statistics example_predictions) =
     [(''apple'', 2, 1, 50), (''grape'', 1, 1, 100), (''cat'', 1, 0, 0)]"
    by (simp add: example_per_crop)
  show ?thesis
    using ne bound sums shown by (simp add: example_overall)
qed

text \<open>
  Claim C6 as stated fails in its last part. Of four records, three have the crop
  \<open>apple\<close> with one correct, and one has the crop \<open>grape\<close> and is wrong. The
  overall accuracy is \<open>25.0\<close>; the accuracy of \<open>apple\<close> is the double
  \<open>33.33333333333333\<close>, below \<open>100/3\<close>, and the weighted mean is
  \<open>24.999999999999996\<close>, whether it is taken exactly or in floats (three times
  the accuracy of \<open>apple\<close> and a quarter of that are doubles).
\<close>

theorem weighted_accuracy_counterexample:
  "accuracy (calculate_overall_accuracy rounding_predictions) = 25 \<and>
   total (calculate_overall_accuracy rounding_predictions) = 4 \<and>
   map (\<lambda>(k, s). (k, total s, accuracy s)) (calculate_per_crop_statistics rounding_predictions) =
     [(''apple'', 3, 2345624805922133 / 70368744177664), (''grape'', 1, 0)] \<and>
   (\<Sum>(k, s) \<leftarrow> calculate_per_crop_statistics rounding_predictions.
        accuracy s * real_of_int (total s)) /
      real_of_int (total (calculate_overall_accuracy rounding_predictions)) =
     7036874417766399 / 281474976710656 \<and>
   (\<Sum>(k, s) \<leftarrow> calculate_per_crop_statistics rounding_predictions.
        accuracy s * real_of_int (total s)) /
      real_of_int (total (calculate_overall_accuracy rounding_predictions)) \<noteq>
     accuracy (calculate_overall_accuracy rounding_predictions)"
  by (simp add: rounding_overall rounding_per_crop)

text \<open>
  Claim C7. The misclassified list holds exactly the records whose true and predicted
  labels differ after lower-casing, in the order of the retained records, and its
  length is \<open>total - correct\<close> of the overall report for the same records.
\<close>

theorem misclassified_list:
  "find_misclassified_images ps =
     filter (\<lambda>p. lower (true_label p) \<noteq> lower (pred_label p)) ps \<and>
   int (length (find_misclassified_images ps)) =
     total (calculate_overall_accuracy ps) - correct (calculate_overall_accuracy ps)"
proof -
  let ?ok = "\<lambda>p::eval_prediction. lower (true_label p) = lower (pred_label p)"
  have mis: "find_misclassified_images ps = filter (\<lambda>p. \<not> ?ok p) ps"
    by (simp add: find_misclassified_images_def collect_misclassified_acc)
  have "length (filter ?ok ps) + length (filter (\<lambda>p. \<not> ?ok p) ps) = length ps"
    by (rule sum_length_filter_compl)
  then have "int (length (filter (\<lambda>p. \<not> ?ok p) ps)) =
      int (length ps) - int (length (filter ?ok ps))"
    by linarith
  then show ?thesis
    using mis by (simp add: overall_total overall_correct)
qed

theorem misclassified_list_witness:
  "map filename (find_misclassified_images example_predictions) = [''x'', ''c.jpg''] \<and>
   map filename (filter (\<lambda>p. lower (true_label p) \<noteq> lower (pred_label p)) example_predictions) =
     [''x'', ''c.jpg''] \<and>
   int (length (find_misclassified_images example_predictions)) = 4 - 2"
proof -
  note m = misclassified_list [of example_predictions]
  have same: "filter (\<lambda>p. lower (true_label p) \<noteq> lower (pred_label p)) example_predictions =
      find_misclassified_images example_predictions"
    using m [THEN conjunct1] by simp
  have len: "int (length (find_misclassified_images example_predictions)) = 4 - 2"
    using m [THEN conjunct2] by (simp add: example_overall)
  show ?thesis
    unfolding same using len by (simp add: example_misclassified)
qed

section \<open>Properties of the predictions loader\<close>

lemma read_prediction_rows_filter:
  assumes "\<forall>r\<in>set rows. \<exists>cell. map_of r ''pred_label'' = Some cell \<and>
             (cell \<noteq> ''ERROR'' \<longrightarrow> (\<exists>p. make_prediction py_float r = Inr p))"
  shows "\<exists>ps. map Inr ps =
              map (make_prediction py_float)
                (filter (\<lambda>r. map_of r ''pred_label'' \<noteq> Some ''ERROR'') rows) \<and>
           read_prediction_rows py_float (map Row rows) acc = Inr (acc @ ps)"
  using assms
proof (induction rows arbitrary: acc)
  case Nil
  then show ?case by simp
next
  case (Cons r rows)
  let ?keep = "\<lambda>r::row. map_of r ''pred_label'' \<noteq> Some ''ERROR''"
  let ?mk = "make_prediction py_float"
  from Cons.prems obtain cell where cell: "map_of r ''pred_label'' = Some cell"
    and ok: "cell \<noteq> ''ERROR'' \<longrightarrow> (\<exists>p. ?mk r = Inr p)"
    by auto
  have rest: "\<forall>r\<in>set rows. \<exists>cell. map_of r ''pred_label'' = Some cell \<and>
             (cell \<noteq> ''ERROR'' \<longrightarrow> (\<exists>p. ?mk r = Inr p))"
    using Cons.prems by simp
  show ?case
  proof (cases "cell = ''ERROR''")
    case True
    from Cons.IH [OF rest, of acc] obtain ps where
      "map Inr ps = map ?mk (filter ?keep rows)"
      "read_prediction_rows py_float (map Row rows) acc = Inr (acc @ ps)"
      by blast
    with True cell show ?thesis by simp
  next
    case False
    with ok obtain p where p: "?mk r = Inr p" by blast
    from Cons.IH [OF rest, of "acc @ [p]"] obtain ps where
      ps: "map Inr ps = map ?mk (filter ?keep rows)"
        "read_prediction_rows py_float (map Row rows) (acc @ [p]) = Inr ((acc @ [p]) @ ps)"
      by blast
    have "map Inr (p # ps) = map ?mk (filter ?keep (r # rows))"
      using False cell p ps(1) by simp
    moreover have "read_prediction_rows py_float (map Row (r # rows)) acc = Inr (acc @ (p # ps))"
      using False cell p ps(2) by simp
    ultimately show ?thesis by blast
  qed
qed

lemma try_prediction_encodings_skip:
  assumes "\<forall>e\<in>set before. \<exists>x. read_prediction_rows py_float (f e) [] = Inl x \<and> caught x"
  shows "try_prediction_encodings py_float f (before @ rest) [] =
         try_prediction_encodings py_float f rest []"
  using assms by (induction before) auto

lemma load_predictions_winning_encoding:
  assumes "encodings_to_try = before @ enc # rest"
      and "\<forall>e\<in>set before. \<exists>x. read_prediction_rows py_float (f e) [] = Inl x \<and> caught x"
      and "read_prediction_rows py_float (f enc) [] = Inr ps"
  shows "load_predictions_from_csv py_float (Some f) =
           (if ps = [] then Inl ValueError else Inr ps)"
  using assms(3)
  by (simp add: load_predictions_from_csv_def assms(1) try_prediction_encodings_skip [OF assms(2)])

lemma legacy_variant_loaded:
  "load_predictions_from_csv example_float (Some legacy_variant_table) =
     Inr [\<lparr>filename = ''a.jpg'', true_label = ''error'', pred_label = ''Error'',
           pred_confidence = 9 / 10\<rparr>,
          \<lparr>filename = ''c.jpg'', true_label = ''apple'', pred_label = ''error'',
           pred_confidence = 1 / 2\<rparr>]"
  by (simp add: load_predictions_from_csv_def encodings_to_try_def legacy_variant_table_def
        case_variant_table_def make_prediction_def example_float_def caught_def)

lemma nothing_to_analyze_unreachable:
  "evaluate_accuracy_main py_float csv_path \<noteq> NothingToAnalyze"
  by (auto simp: evaluate_accuracy_main_def load_predictions_from_csv_def
        split: option.splits sum.splits if_splits)

lemma case_variant_statistics:
  "calculate_overall_accuracy
     [\<lparr>filename = ''a.jpg'', true_label = ''error'', pred_label = ''Error'',
       pred_confidence = 9 / 10\<rparr>,
      \<lparr>filename = ''c.jpg'', true_label = ''apple'', pred_label = ''error'',
       pred_confidence = 1 / 2\<rparr>] =
   \<lparr>total = 2, correct = 1, accuracy = 50\<rparr>"
  by (simp add: calculate_overall_accuracy_def lower_words fl_examples)

text \<open>
  Claim C10. The loader drops a row exactly when its \<open>pred_label\<close> is the string
  \<open>ERROR\<close>, compared as it is. Take the encoding under which the table is read:
  every encoding tried before it ends in a caught exception, and under it every row
  has a \<open>pred_label\<close> and, unless that is \<open>ERROR\<close>, the other three columns with a
  confidence \<open>float\<close> accepts. Then the loaded list is the list of records of the
  rows whose \<open>pred_label\<close> differs from \<open>ERROR\<close>, in order (and the loader raises
  \<open>ValueError\<close> when no row is left). Case variants such as \<open>error\<close> are therefore
  retained and counted by the statistics.
\<close>

theorem error_rows_dropped_exactly:
  assumes "encodings_to_try = before @ enc # rest"
      and "\<forall>e\<in>set before. \<exists>x. read_prediction_rows py_float (f e) [] = Inl x \<and> caught x"
      and "f enc = map Row rows"
      and "\<forall>r\<in>set rows. \<exists>cell. map_of r ''pred_label'' = Some cell \<and>
             (cell \<noteq> ''ERROR'' \<longrightarrow> (\<exists>p. make_prediction py_float r = Inr p))"
  shows "\<exists>ps. map Inr ps =
              map (make_prediction py_float)
                (filter (\<lambda>r. map_of r ''pred_label'' \<noteq> Some ''ERROR'') rows) \<and>
           load_predictions_from_csv py_float (Some f) =
             (if ps = [] then Inl ValueError else Inr ps) \<and>
           total (calculate_overall_accuracy ps) =
             int (length (filter (\<lambda>r. map_of r ''pred_label'' \<noteq> Some ''ERROR'') rows))"
proof -
  let ?keep = "\<lambda>r::row. map_of r ''pred_label'' \<noteq> Some ''ERROR''"
  from read_prediction_rows_filter [OF assms(4), of "[]"] obtain ps where
    ps: "map Inr ps = map (make_prediction py_float) (filter ?keep rows)"
      "read_prediction_rows py_float (map Row rows) [] = Inr ps"
    by auto
  have "load_predictions_from_csv py_float (Some f) =
      (if ps = [] then Inl ValueError else Inr ps)"
    using ps(2) assms(3) load_predictions_winning_encoding [OF assms(1) assms(2)] by simp
  moreover have "length ps = length (filter ?keep rows)"
    using ps(1) by (metis length_map)
  ultimately show ?thesis
    using ps(1) by (auto simp: overall_total)
qed

theorem error_rows_dropped_exactly_witness:
  "load_predictions_from_csv example_float (Some legacy_variant_table) =
     Inr [\<lparr>filename = ''a.jpg'', true_label = ''error'', pred_label = ''Error'',
           pred_confidence = 9 / 10\<rparr>,
          \<lparr>filename = ''c.jpg'', true_label = ''apple'', pred_label = ''error'',
           pred_confidence = 1 / 2\<rparr>] \<and>
   (\<exists>ps. load_predictions_from_csv example_float (Some legacy_variant_table) = Inr ps \<and>
      map filename ps = [''a.jpg'', ''c.jpg''] \<and>
      calculate_overall_accuracy ps = \<lparr>total = 2, correct = 1, accuracy = 50\<rparr>)"
proof -
  let ?rows = "[[(''filename'', ''a.jpg''), (''true_label'', ''error''),
                 (''pred_label'', ''Error''), (''pred_confidence'', ''0.9'')],
                [(''filename'', ''b.jpg''), (''true_label'', ''apple''),
                 (''pred_label'', ''ERROR''), (''pred_confidence'', ''0.0'')],
                [(''filename'', ''c.jpg''), (''true_label'', ''apple''),
                 (''pred_label'', ''error''), (''pred_confidence'', ''0.5'')]]"
  have encs: "encodings_to_try = [Utf8Sig, Utf8] @ Cp949 # [EucKr]"
    by (simp add: encodings_to_try_def)
  have failed: "\<forall>e\<in>set [Utf8Sig, Utf8].
      \<exists>x. read_prediction_rows example_float (legacy_variant_table e) [] = Inl x \<and> caught x"
    by (simp add: legacy_variant_table_def make_prediction_def example_float_def caught_def)
  have table: "legacy_variant_table Cp949 = map Row ?rows"
    by (simp add: legacy_variant_table_def case_variant_table_def)
  have rows: "\<forall>r\<in>set ?rows. \<exists>cell. map_of r ''pred_label'' = Some cell \<and>
      (cell \<noteq> ''ERROR'' \<longrightarrow> (\<exists>p. make_prediction example_float r = Inr p))"
    by (simp add: make_prediction_def example_float_def)
  from error_rows_dropped_exactly [where f = legacy_variant_table, OF encs failed table rows]
  obtain ps where
    ps: "map Inr ps = map (make_prediction example_float)
           (filter (\<lambda>r. map_of r ''pred_label'' \<noteq> Some ''ERROR'') ?rows)"
      "load_predictions_from_csv example_float (Some legacy_variant_table) =
         (if ps = [] then Inl ValueError else Inr ps)"
    by blast
  have "map Inr ps =
      [Inr \<lparr>filename = ''a.jpg'', true_label = ''error'', pred_label = ''Error'',
            pred_confidence = 9 / 10\<rparr>,
       Inr \<lparr>filename = ''c.jpg'', true_label = ''apple'', pred_label = ''error'',
            pred_confidence = 1 / 2\<rparr> :: exn + eval_prediction]"
    using ps(1) by (simp add: make_prediction_def example_float_def)
  then have val: "ps =
      [\<lparr>filename = ''a.jpg'', true_label = ''error'', pred_label = ''Error'',
        pred_confidence = 9 / 10\<rparr>,
       \<lparr>filename = ''c.jpg'', true_label = ''apple'', pred_label = ''error'',
        pred_confidence = 1 / 2\<rparr>]"
    by (auto simp: map_eq_Cons_conv)
  show ?thesis
    using ps(2) unfolding val by (simp add: case_variant_statistics)
qed

text \<open>
  Claim C1 (the code does not meet it). A predictions table that exists, is read
  under the first encoding and has one data row, whose \<open>pred_label\<close> is \<open>ERROR\<close>:
  the loader raises \<open>ValueError\<close> (the specification's \<open>UnreadableFormat\<close>), and
  \<open>main\<close>, which handles \<open>FileNotFoundError\<close> only, lets it escape instead of
  reporting that there is nothing to analyse.
\<close>

theorem all_error_rows_raise:
  "load_predictions_from_csv py_float (Some all_error_table) = Inl ValueError \<and>
   evaluate_accuracy_main py_float (Some all_error_table) = Uncaught ValueError"
  by (simp add: evaluate_accuracy_main_def load_predictions_from_csv_def encodings_to_try_def
        all_error_table_def)

section \<open>Properties of the Label Store Reader\<close>

lemma all_dropWhile: "(\<forall>x\<in>set (dropWhile P s). P x) \<longleftrightarrow> (\<forall>c\<in>set s. P c)"
  by (induction s) auto

lemma strip_empty_iff: "strip s = [] \<longleftrightarrow> (\<forall>c\<in>set s. isspace c)"
  by (simp add: strip_def dropWhile_eq_Nil_conv all_dropWhile)

lemma blank_row_step:
  "map_of r ''filename'' = Some (Some name_cell) \<Longrightarrow>
   map_of r ''label'' = Some (Some label_cell) \<Longrightarrow>
   \<forall>c\<in>set label_cell. isspace c \<Longrightarrow>
   read_label_rows (Row r # rest) d w = read_label_rows rest d (w @ [strip name_cell])"
  by (simp add: stripped_cell_def strip_empty_iff)

lemma blank_rows_only:
  assumes "\<forall>r\<in>set rows. \<exists>name_cell label_cell. map_of r ''filename'' = Some (Some name_cell) \<and>
             map_of r ''label'' = Some (Some label_cell) \<and> (\<forall>c\<in>set label_cell. isspace c)"
  shows "\<exists>ws. length ws = length rows \<and> read_label_rows (map Row rows) d w = (Inr d, w @ ws)"
  using assms
proof (induction rows arbitrary: w)
  case Nil
  then show ?case by simp
next
  case (Cons r rows)
  from Cons.prems obtain name_cell label_cell where
    r: "map_of r ''filename'' = Some (Some name_cell)"
       "map_of r ''label'' = Some (Some label_cell)"
       "\<forall>c\<in>set label_cell. isspace c"
    by auto
  have rest: "\<forall>r\<in>set rows. \<exists>name_cell label_cell.
             map_of r ''filename'' = Some (Some name_cell) \<and>
             map_of r ''label'' = Some (Some label_cell) \<and> (\<forall>c\<in>set label_cell. isspace c)"
    using Cons.prems by simp
  from Cons.IH [OF rest, of "w @ [strip name_cell]"] obtain ws where
    ws: "length ws = length rows"
      "read_label_rows (map Row rows) d (w @ [strip name_cell]) =
         (Inr d, (w @ [strip name_cell]) @ ws)"
    by blast
  have "read_label_rows (map Row (r # rows)) d w = (Inr d, w @ (strip name_cell # ws))"
    using blank_row_step [OF r] ws(2) by simp
  moreover have "length (strip name_cell # ws) = length (r # rows)"
    using ws(1) by simp
  ultimately show ?case by blast
qed

lemma load_answers_never_empty:
  "fst (load_answers_from_csv csv_path) \<noteq> Inr []"
  by (auto simp: load_answers_from_csv_def split: option.splits prod.splits sum.splits)

lemma load_answers_first_encoding:
  "read_label_rows (f Utf8Sig) [] [] = (Inr d, w) \<Longrightarrow>
   load_answers_from_csv (Some f) = (if d = [] then (Inl ValueError, w) else (Inr d, w))"
  by (simp add: load_answers_from_csv_def encodings_to_try_def)

lemma blank_table_loaded:
  "load_answers_from_csv (Some blank_label_table) =
     (Inl ValueError, [''img_1.jpg'', ''img_2.jpg''])"
  by code_simp

lemma partly_labelled_loaded:
  "load_answers_from_csv (Some partly_labelled_table) =
     (Inr [(''img_1.jpg'', ''apple''), (''img_3.jpg'', ''unknown'')], [''img_2.jpg''])"
  by code_simp

text \<open>
  Rows that have a label cell. A row whose label cell is empty or consists of
  whitespace is skipped with a warning: the loop goes on with the mapping unchanged,
  the filename appended to the warnings, and no exception. A table read under the
  first encoding whose rows all have such labels makes the reader raise \<open>ValueError\<close>
  (the specification's \<open>UnreadableFormat\<close>) after one warning per row; whenever the
  encoding loop ends with an empty mapping the reader raises \<open>ValueError\<close>, so it
  never returns an empty mapping.
\<close>

lemma present_blank_labels_skipped:
  "(map_of r ''filename'' = Some (Some name_cell) \<and>
      map_of r ''label'' = Some (Some label_cell) \<and>
      (\<forall>c\<in>set label_cell. isspace c) \<longrightarrow>
    read_label_rows (Row r # rest) d w = read_label_rows rest d (w @ [strip name_cell])) \<and>
   (f Utf8Sig = map Row rows \<and>
      (\<forall>r\<in>set rows. \<exists>name_cell label_cell. map_of r ''filename'' = Some (Some name_cell) \<and>
             map_of r ''label'' = Some (Some label_cell) \<and>
             (\<forall>c\<in>set label_cell. isspace c)) \<longrightarrow>
    fst (load_answers_from_csv (Some f)) = Inl ValueError \<and>
    length (snd (load_answers_from_csv (Some f))) = length rows) \<and>
   (try_label_encodings g encodings_to_try [] [] = (Inr [], ws) \<longrightarrow>
    load_answers_from_csv (Some g) = (Inl ValueError, ws)) \<and>
   fst (load_answers_from_csv csv_path) \<noteq> Inr []"
proof (intro conjI impI)
  assume "map_of r ''filename'' = Some (Some name_cell) \<and>
      map_of r ''label'' = Some (Some label_cell) \<and> (\<forall>c\<in>set label_cell. isspace c)"
  then show "read_label_rows (Row r # rest) d w =
      read_label_rows rest d (w @ [strip name_cell])"
    by (intro blank_row_step) blast+
next
  assume a: "f Utf8Sig = map Row rows \<and>
      (\<forall>r\<in>set rows. \<exists>name_cell label_cell. map_of r ''filename'' = Some (Some name_cell) \<and>
             map_of r ''label'' = Some (Some label_cell) \<and>
             (\<forall>c\<in>set label_cell. isspace c))"
  then obtain ws where ws: "length ws = length rows"
    "read_label_rows (map Row rows) [] [] = (Inr [], [] @ ws)"
    using blank_rows_only [of rows "[]" "[]"] by blast
  then have l: "load_answers_from_csv (Some f) = (Inl ValueError, ws)"
    using a load_answers_first_encoding [of f "[]" ws] by simp
  show "fst (load_answers_from_csv (Some f)) = Inl ValueError"
    using l by simp
  show "length (snd (load_answers_from_csv (Some f))) = length rows"
    using l ws(1) by simp
next
  assume "try_label_encodings g encodings_to_try [] [] = (Inr [], ws)"
  then show "load_answers_from_csv (Some g) = (Inl ValueError, ws)"
    by (simp add: load_answers_from_csv_def)
next
  show "fst (load_answers_from_csv csv_path) \<noteq> Inr []"
    by (rule load_answers_never_empty)
qed

text \<open>
  A row without a label cell stops the reader at once, whatever came before it and
  whatever follows: \<open>row['label'].strip()\<close> raises \<open>AttributeError\<close>, and the
  warnings stay as they were. The \<open>except\<close> clause of the encoding loop does not
  catch it, so no further encoding is tried.
\<close>

lemma missing_cell_step:
  "map_of r ''filename'' = Some (Some name_cell) \<Longrightarrow> map_of r ''label'' = Some None \<Longrightarrow>
   read_label_rows (Row r # rest) d w = (Inl AttributeError, w)"
  by (simp add: stripped_cell_def)

lemma attribute_error_escapes:
  "read_label_rows (f enc) d w = (Inl AttributeError, w') \<Longrightarrow>
   try_label_encodings f (enc # encs) d w = (Inl AttributeError, w')"
  by (simp add: caught_def)

text \<open>
  Claim C8 (the code does not meet it). A label file with the header
  \<open>filename,label\<close> and the lines \<open>a.jpg,apple\<close> and \<open>b.jpg\<close>: the second line has no
  label field, so the label of its row is empty, and the row is to be skipped with a
  warning, leaving the mapping of \<open>a.jpg\<close> to \<open>apple\<close>. \<open>DictReader\<close> gives the row the
  label \<open>None\<close>, and \<open>row['label'].strip()\<close> raises \<open>AttributeError\<close>: no warning is
  printed, no mapping is returned, the reader's \<open>except\<close> clause does not catch the
  exception and \<open>main\<close>, which handles \<open>FileNotFoundError\<close> and \<open>ValueError\<close>, lets it
  escape. The same line with its comma, \<open>b.jpg,\<close>, is skipped with a warning.
\<close>

theorem missing_label_cell_raises:
  "load_answers_from_csv (Some short_line_table) = (Inl AttributeError, []) \<and>
   load_labels_in_main (Some short_line_table) = LabelsUncaught AttributeError \<and>
   load_answers_from_csv
     (Some (\<lambda>enc. [Row [(''filename'', Some ''a.jpg''), (''label'', Some ''apple'')],
                    Row [(''filename'', Some ''b.jpg''), (''label'', Some [])]])) =
     (Inr [(''a.jpg'', ''apple'')], [''b.jpg''])"
  by code_simp

section \<open>Properties of the Answer-Template Generator\<close>




text \<open>
  \<open>main\<close> writes the template of the folder's images, and writes nothing when there
  is none (or no folder).
\<close>

lemma template_main:
  "create_answer_template_main folder_path =
     (if get_all_image_files folder_path = [] then None
      else Some (create_answer_template (get_all_image_files folder_path)))"
  by (simp add: create_answer_template_main_def Let_def)



section \<open>Properties of the adapter and the classification driver\<close>

lemma failure_record:
  assumes "content img = None \<or> reply img = ApiError \<or> reply img = NotJson \<or>
           (\<exists>v. reply img = Parsed v \<and> (\<forall>kvs. v \<noteq> JDict kvs))"
  shows "classify_single_image img l = error_prediction (name img) l"
proof (cases "content img")
  case None
  then show ?thesis
    by (simp add: classify_single_image_def classify_attempt_def load_image_as_base64_def)
next
  case (Some data)
  with assms consider "reply img = ApiError" | "reply img = NotJson"
    | v where "reply img = Parsed v" "\<forall>kvs. v \<noteq> JDict kvs"
    by auto
  then show ?thesis
  proof cases
    case 1
    with Some show ?thesis
      by (simp add: classify_single_image_def classify_attempt_def load_image_as_base64_def
            call_vision_api_def)
  next
    case 2
    with Some show ?thesis
      by (simp add: classify_single_image_def classify_attempt_def load_image_as_base64_def
            call_vision_api_def)
  next
    case 3
    with Some show ?thesis
      by (cases v)
         (simp_all add: classify_single_image_def classify_attempt_def
            load_image_as_base64_def call_vision_api_def json_get_def)
  qed
qed

lemma dict_record:
  assumes "content img \<noteq> None" and "reply img = Parsed (JDict kvs)"
  shows "classify_single_image img l =
     \<lparr>filename = name img, true_label = l,
      pred_label = (case map_of kvs ''crop'' of None \<Rightarrow> JStr ''unknown'' | Some v \<Rightarrow> v),
      pred_confidence = (case map_of kvs ''confidence'' of None \<Rightarrow> JFloat 0 | Some v \<Rightarrow> v)\<rparr>"
  using assms
  by (auto simp: classify_single_image_def classify_attempt_def load_image_as_base64_def
        call_vision_api_def json_get_def)

lemma record_cases:
  "classify_single_image img l = error_prediction (name img) l \<or>
   (\<exists>kvs. content img \<noteq> None \<and> reply img = Parsed (JDict kvs))"
proof (cases "\<exists>kvs. content img \<noteq> None \<and> reply img = Parsed (JDict kvs)")
  case True
  then show ?thesis by blast
next
  case False
  have "content img = None \<or> reply img = ApiError \<or> reply img = NotJson \<or>
           (\<exists>v. reply img = Parsed v \<and> (\<forall>kvs. v \<noteq> JDict kvs))"
  proof (cases "reply img")
    case (Parsed v)
    with False show ?thesis by auto
  qed simp_all
  then show ?thesis by (simp add: failure_record)
qed

lemma record_names:
  "filename (classify_single_image img l) = name img \<and>
   true_label (classify_single_image img l) = l"
  using record_cases [of img l] dict_record [of img _ l]
  by (auto simp: error_prediction_def)

text \<open>The records of the example images.\<close>

lemma missing_crop_record:
  "classify_single_image missing_crop_image ''apple'' =
     \<lparr>filename = ''a.jpg'', true_label = ''apple'',
      pred_label = JStr ''unknown'', pred_confidence = JFloat (1 / 2)\<rparr>"
  by (simp add: dict_record [where kvs = "[(''confidence'', JFloat (1 / 2))]"]
        missing_crop_image_def)

lemma percent_record:
  "classify_single_image percent_image ''apple'' =
     \<lparr>filename = ''a.jpg'', true_label = ''apple'',
      pred_label = JStr ''apple'', pred_confidence = JFloat 93\<rparr>"
  by (simp add: dict_record
        [where kvs = "[(''crop'', JStr ''apple''), (''confidence'', JFloat 93)]"]
        percent_image_def)

lemma error_named_record:
  "classify_single_image error_named_image ''apple'' =
     \<lparr>filename = ''a.jpg'', true_label = ''apple'',
      pred_label = JStr ''ERROR'', pred_confidence = JFloat (9 / 10)\<rparr>"
  by (simp add: dict_record
        [where kvs = "[(''crop'', JStr ''ERROR''), (''confidence'', JFloat (9 / 10))]"]
        error_named_image_def)

lemma good_record:
  "classify_single_image good_image l =
     \<lparr>filename = ''a.jpg'', true_label = l,
      pred_label = JStr ''apple'', pred_confidence = JFloat (9 / 10)\<rparr>"
  by (simp add: dict_record
        [where kvs = "[(''crop'', JStr ''apple''), (''confidence'', JFloat (9 / 10))]"]
        good_image_def)

lemma second_record:
  "classify_single_image second_image l =
     \<lparr>filename = ''b.jpg'', true_label = l,
      pred_label = JStr ''Apple'', pred_confidence = JFloat (1 / 2)\<rparr>"
  by (simp add: dict_record
        [where kvs = "[(''crop'', JStr ''Apple''), (''confidence'', JFloat (1 / 2))]"]
        second_image_def)

lemma numeric_crop_record:
  "classify_single_image numeric_crop_image l =
     \<lparr>filename = ''a.jpg'', true_label = l,
      pred_label = JInt 5, pred_confidence = JFloat (9 / 10)\<rparr>"
  by (simp add: dict_record
        [where kvs = "[(''crop'', JInt 5), (''confidence'', JFloat (9 / 10))]"]
        numeric_crop_image_def)

text \<open>
  Claim C3, as amended. An image that cannot be read, a transport or service error, a
  reply that is not JSON and a reply that parses to anything but an object (\<open>null\<close>
  included) all give the record with \<open>pred_label = ERROR\<close> and
  \<open>pred_confidence = 0.0\<close>. A reply that parses to an object is never a failure:
  the record takes the object's \<open>crop\<close> value, or \<open>unknown\<close> when the key is
  absent, and its \<open>confidence\<close> value, or \<open>0.0\<close> when the key is absent. These two
  cases cover every image, and \<open>classify_single_image\<close> returns a record in both:
  no exception leaves it.
\<close>

theorem adapter_failure_record:
  "(content img = None \<or> reply img = ApiError \<or> reply img = NotJson \<or>
      (\<exists>v. reply img = Parsed v \<and> (\<forall>kvs. v \<noteq> JDict kvs)) \<longrightarrow>
    classify_single_image img l =
      \<lparr>filename = name img, true_label = l,
       pred_label = JStr ''ERROR'', pred_confidence = JFloat 0\<rparr>) \<and>
   (content img \<noteq> None \<and> reply img = Parsed (JDict kvs) \<longrightarrow>
    classify_single_image img l =
      \<lparr>filename = name img, true_label = l,
       pred_label = (case map_of kvs ''crop'' of None \<Rightarrow> JStr ''unknown'' | Some v \<Rightarrow> v),
       pred_confidence =
         (case map_of kvs ''confidence'' of None \<Rightarrow> JFloat 0 | Some v \<Rightarrow> v)\<rparr>)"
  using failure_record [of img l] dict_record [of img kvs l]
  by (simp add: error_prediction_def)

theorem adapter_failure_record_witness:
  "reply failed_image = ApiError \<and>
   classify_single_image failed_image ''apple'' =
     \<lparr>filename = ''a.jpg'', true_label = ''apple'',
      pred_label = JStr ''ERROR'', pred_confidence = JFloat 0\<rparr> \<and>
   reply list_reply_image = Parsed (JList [JStr ''apple'', JFloat (9 / 10)]) \<and>
   classify_single_image list_reply_image ''apple'' =
     \<lparr>filename = ''a.jpg'', true_label = ''apple'',
      pred_label = JStr ''ERROR'', pred_confidence = JFloat 0\<rparr> \<and>
   content good_image = Some ''QUJD'' \<and>
   classify_single_image good_image ''apple'' =
     \<lparr>filename = ''a.jpg'', true_label = ''apple'',
      pred_label = JStr ''apple'', pred_confidence = JFloat (9 / 10)\<rparr>"
  using adapter_failure_record [of failed_image "''apple''" "[]"]
    adapter_failure_record [of list_reply_image "''apple''" "[]"]
    adapter_failure_record
      [of good_image "''apple''" "[(''crop'', JStr ''apple''), (''confidence'', JFloat (9 / 10))]"]
  by (simp add: failed_image_def list_reply_image_def good_image_def)

text \<open>
  Claim C3 as stated fails: a reply that parses to the object
  \<open>{"confidence": 0.5}\<close>, which lacks the category field, gives the label
  \<open>unknown\<close> and the confidence \<open>0.5\<close>, not \<open>ERROR\<close> and \<open>0.0\<close>.
\<close>

theorem missing_field_counterexample:
  "reply missing_crop_image = Parsed (JDict [(''confidence'', JFloat (1 / 2))]) \<and>
   classify_single_image missing_crop_image ''apple'' =
     \<lparr>filename = ''a.jpg'', true_label = ''apple'',
      pred_label = JStr ''unknown'', pred_confidence = JFloat (1 / 2)\<rparr> \<and>
   pred_label (classify_single_image missing_crop_image ''apple'') \<noteq> JStr ''ERROR'' \<and>
   pred_confidence (classify_single_image missing_crop_image ''apple'') \<noteq> JFloat 0"
  by (simp add: missing_crop_record) (simp add: missing_crop_image_def)

text \<open>
  Claim C4, as amended. The driver does not check the confidence: the record's
  \<open>pred_confidence\<close> is \<open>0.0\<close> or the \<open>confidence\<close> value of the object the reply
  parsed to, unchanged. Hence it is a float in \<open>[0,1]\<close> whenever that value, if
  present, is one; and a record labelled \<open>ERROR\<close> has confidence \<open>0.0\<close>
  whenever the reply did not itself name the crop \<open>ERROR\<close>.
\<close>

theorem confidence_passed_through:
  "((\<forall>kvs c. reply img = Parsed (JDict kvs) \<and> map_of kvs ''confidence'' = Some c \<longrightarrow>
        unit_float c) \<longrightarrow>
      unit_float (pred_confidence (classify_single_image img l))) \<and>
   ((\<forall>kvs. reply img = Parsed (JDict kvs) \<longrightarrow> map_of kvs ''crop'' \<noteq> Some (JStr ''ERROR'')) \<longrightarrow>
      pred_label (classify_single_image img l) = JStr ''ERROR'' \<longrightarrow>
      pred_confidence (classify_single_image img l) = JFloat 0) \<and>
   (pred_confidence (classify_single_image img l) = JFloat 0 \<or>
    (\<exists>kvs. reply img = Parsed (JDict kvs) \<and>
       map_of kvs ''confidence'' = Some (pred_confidence (classify_single_image img l))))"
proof -
  have zero: "unit_float (JFloat 0)"
    by (simp add: unit_float_def)
  show ?thesis
  proof (cases "\<exists>kvs. content img \<noteq> None \<and> reply img = Parsed (JDict kvs)")
    case True
    then obtain kvs where k: "content img \<noteq> None" "reply img = Parsed (JDict kvs)"
      by blast
    note r = dict_record [OF k, of l]
    show ?thesis
      using k(2) zero by (auto simp: r split: option.splits)
  next
    case False
    with record_cases [of img l]
    have "classify_single_image img l = error_prediction (name img) l"
      by blast
    then show ?thesis
      using zero by (simp add: error_prediction_def)
  qed
qed

theorem confidence_passed_through_witness:
  "reply good_image =
     Parsed (JDict [(''crop'', JStr ''apple''), (''confidence'', JFloat (9 / 10))]) \<and>
   unit_float (JFloat (9 / 10)) \<and>
   unit_float (pred_confidence (classify_single_image good_image ''apple'')) \<and>
   reply failed_image = ApiError \<and>
   pred_label (classify_single_image failed_image ''apple'') = JStr ''ERROR'' \<and>
   pred_confidence (classify_single_image failed_image ''apple'') = JFloat 0"
proof -
  have g: "reply good_image =
      Parsed (JDict [(''crop'', JStr ''apple''), (''confidence'', JFloat (9 / 10))])"
    by (simp add: good_image_def)
  have u: "unit_float (JFloat (9 / 10))"
    by (simp add: unit_float_def)
  have h1: "\<forall>kvs c. reply good_image = Parsed (JDict kvs) \<and>
      map_of kvs ''confidence'' = Some c \<longrightarrow> unit_float c"
    using u by (auto simp: g)
  have f: "reply failed_image = ApiError"
    by (simp add: failed_image_def)
  have h2: "\<forall>kvs. reply failed_image = Parsed (JDict kvs) \<longrightarrow>
      map_of kvs ''crop'' \<noteq> Some (JStr ''ERROR'')"
    by (simp add: f)
  have lab: "pred_label (classify_single_image failed_image ''apple'') = JStr ''ERROR''"
    using failure_record [of failed_image "''apple''"] f by (simp add: error_prediction_def)
  have a: "unit_float (pred_confidence (classify_single_image good_image ''apple''))"
    using confidence_passed_through [of good_image "''apple''"] h1 by blast
  have b: "pred_confidence (classify_single_image failed_image ''apple'') = JFloat 0"
    using confidence_passed_through [of failed_image "''apple''"] h2 lab by blast
  show ?thesis
    using g u a f lab b by blast
qed

text \<open>
  Claim C4 as stated fails on both counts: the reply
  \<open>{"crop": "apple", "confidence": 93.0}\<close> gives a confidence outside \<open>[0,1]\<close>,
  and the reply \<open>{"crop": "ERROR", "confidence": 0.9}\<close> gives a record labelled
  \<open>ERROR\<close> whose confidence is not \<open>0.0\<close>.
\<close>

theorem unchecked_confidence_counterexample:
  "classify_single_image percent_image ''apple'' =
     \<lparr>filename = ''a.jpg'', true_label = ''apple'',
      pred_label = JStr ''apple'', pred_confidence = JFloat 93\<rparr> \<and>
   \<not> unit_float (pred_confidence (classify_single_image percent_image ''apple'')) \<and>
   pred_label (classify_single_image error_named_image ''apple'') = JStr ''ERROR'' \<and>
   pred_confidence (classify_single_image error_named_image ''apple'') = JFloat (9 / 10) \<and>
   pred_confidence (classify_single_image error_named_image ''apple'') \<noteq> JFloat 0"
  by (simp add: percent_record error_named_record unit_float_def)

text \<open>
  What the loop of \<open>main\<close> does when \<open>display_progress\<close> accepts every record: one
  record, in order, for each image whose mapped label is not the string
  \<open>unknown\<close>; every other image, unmapped or mapped to \<open>unknown\<close>, is reported as
  having no label.
\<close>

lemma classify_loop_records:
  assumes "\<forall>img\<in>set imgs. \<forall>l. map_of answers (name img) = Some l \<and> l \<noteq> ''unknown'' \<longrightarrow>
             (\<exists>shown. display_progress (pred_label (classify_single_image img l))
                         (pred_confidence (classify_single_image img l)) l = Inr shown)"
  shows "\<exists>ps. classify_loop imgs answers (acc, skipped) =
             Inr (acc @ ps,
                  skipped @ map name
                    (filter (\<lambda>img. map_of answers (name img) = None \<or>
                                   map_of answers (name img) = Some ''unknown'') imgs)) \<and>
           map filename ps =
             map name
               (filter (\<lambda>img. map_of answers (name img) \<noteq> None \<and>
                              map_of answers (name img) \<noteq> Some ''unknown'') imgs)"
  using assms
proof (induction imgs arbitrary: acc skipped)
  case Nil
  then show ?case by simp
next
  case (Cons img imgs)
  have rest: "\<forall>img\<in>set imgs. \<forall>l. map_of answers (name img) = Some l \<and> l \<noteq> ''unknown'' \<longrightarrow>
             (\<exists>shown. display_progress (pred_label (classify_single_image img l))
                         (pred_confidence (classify_single_image img l)) l = Inr shown)"
    using Cons.prems by simp
  show ?case
  proof (cases "map_of answers (name img) = None \<or> map_of answers (name img) = Some ''unknown''")
    case True
    from Cons.IH [OF rest, of "acc" "skipped @ [name img]"] obtain ps where
      "classify_loop imgs answers (acc, skipped @ [name img]) =
         Inr (acc @ ps,
              (skipped @ [name img]) @ map name
                (filter (\<lambda>img. map_of answers (name img) = None \<or>
                               map_of answers (name img) = Some ''unknown'') imgs))"
      "map filename ps =
         map name
           (filter (\<lambda>img. map_of answers (name img) \<noteq> None \<and>
                          map_of answers (name img) \<noteq> Some ''unknown'') imgs)"
      by blast
    with True show ?thesis by auto
  next
    case False
    then obtain l where l: "map_of answers (name img) = Some l" "l \<noteq> ''unknown''"
      by auto
    let ?p = "classify_single_image img l"
    from Cons.prems l obtain shown where
      shown: "display_progress (pred_label ?p) (pred_confidence ?p) l = Inr shown"
      by auto
    from Cons.IH [OF rest, of "acc @ [?p]" skipped] obtain ps where
      ps: "classify_loop imgs answers (acc @ [?p], skipped) =
         Inr ((acc @ [?p]) @ ps,
              skipped @ map name
                (filter (\<lambda>img. map_of answers (name img) = None \<or>
                               map_of answers (name img) = Some ''unknown'') imgs))"
      "map filename ps =
         map name
           (filter (\<lambda>img. map_of answers (name img) \<noteq> None \<and>
                          map_of answers (name img) \<noteq> Some ''unknown'') imgs)"
      by blast
    have step: "classify_loop (img # imgs) answers (acc, skipped) =
        classify_loop imgs answers (acc @ [?p], skipped)"
      using l shown by (simp add: Let_def)
    have "map filename (?p # ps) =
        map name
          (filter (\<lambda>img. map_of answers (name img) \<noteq> None \<and>
                         map_of answers (name img) \<noteq> Some ''unknown'') (img # imgs))"
      using l ps(2) by (simp add: record_names)
    moreover have "classify_loop (img # imgs) answers (acc, skipped) =
        Inr (acc @ (?p # ps),
             skipped @ map name
               (filter (\<lambda>img. map_of answers (name img) = None \<or>
                              map_of answers (name img) = Some ''unknown'') (img # imgs)))"
      using step ps(1) l by simp
    ultimately show ?thesis by blast
  qed
qed

lemma unknown_table_loaded:
  "load_answers_from_csv (Some unknown_label_table) =
     (Inr [(''a.jpg'', ''unknown''), (''b.jpg'', ''apple'')], [])"
  by code_simp

lemma example_batch:
  "get_image_files (Some [second_image, good_image]) = [good_image, second_image]"
proof -
  have "validate_image_file second_image" "validate_image_file good_image"
    "name good_image \<le> name second_image" "\<not> name second_image \<le> name good_image"
    by code_simp+
  then show ?thesis
    by (simp add: get_image_files_def)
qed

text \<open>
  Claim C2 (the code does not meet it). The image \<open>a.jpg\<close> has an entry in the
  label mapping, with the label \<open>unknown\<close>, which the Label Store Reader accepts.
  The loop takes the default of its lookup for a missing label: \<open>a.jpg\<close> is
  reported as having no label and no record is produced for it, while \<open>b.jpg\<close>
  is classified.
\<close>

theorem image_labelled_unknown_skipped:
  "load_answers_from_csv (Some unknown_label_table) =
     (Inr [(''a.jpg'', ''unknown''), (''b.jpg'', ''apple'')], []) \<and>
   get_image_files (Some [second_image, good_image]) = [good_image, second_image] \<and>
   classify_loop (get_image_files (Some [second_image, good_image]))
     [(''a.jpg'', ''unknown''), (''b.jpg'', ''apple'')] ([], []) =
   Inr ([\<lparr>filename = ''b.jpg'', true_label = ''apple'',
          pred_label = JStr ''Apple'', pred_confidence = JFloat (1 / 2)\<rparr>],
        [''a.jpg''])"
proof -
  have names: "name good_image = ''a.jpg''" "name second_image = ''b.jpg''"
    by (simp_all add: good_image_def second_image_def)
  have "classify_loop [good_image, second_image]
      [(''a.jpg'', ''unknown''), (''b.jpg'', ''apple'')] ([], []) =
    Inr ([\<lparr>filename = ''b.jpg'', true_label = ''apple'',
           pred_label = JStr ''Apple'', pred_confidence = JFloat (1 / 2)\<rparr>],
         [''a.jpg''])"
    by (simp add: names second_record display_progress_def)
  then show ?thesis
    by (simp add: unknown_table_loaded example_batch)
qed

text \<open>
  A record whose label is not a string stops the batch: \<open>display_progress\<close> raises
  \<open>AttributeError\<close>, which nothing in \<open>main\<close> handles, and the images after it
  are never classified.
\<close>

lemma non_string_label_aborts:
  "classify_loop [numeric_crop_image, second_image]
     [(''a.jpg'', ''pear''), (''b.jpg'', ''apple'')] ([], []) = Inl AttributeError"
proof -
  have names: "name numeric_crop_image = ''a.jpg''"
    by (simp add: numeric_crop_image_def)
  show ?thesis
    by (simp add: names numeric_crop_record display_progress_def)
qed

end
